theory Spec2Isabelle
  imports Complex_Main "HOL-Library.Sublist"
begin

section \<open>JavaScript values\<close>

text \<open>
  The tool arguments, the stored memory values and the business profile are whatever
  \<^verbatim>\<open>JSON.parse\<close> produced. A JavaScript value that may also be \<^verbatim>\<open>undefined\<close> (a property
  that is absent) is a \<open>json option\<close>, with \<open>None\<close> for \<^verbatim>\<open>undefined\<close>. A number is a
  rational (every finite double is one), and a string is a list of characters. An object is
  the list of its own properties, of which a lookup takes the first with the name.
\<close>

datatype json =
    JNull
  | JBool bool
  | JNum rat
  | JStr string
  | JArr "json list"
  | JObj "(string \<times> json) list"

type_synonym jsval = "json option"

text \<open>What \<^verbatim>\<open>if (v)\<close> and \<^verbatim>\<open>v || w\<close> test: every value but \<^verbatim>\<open>undefined\<close>, \<^verbatim>\<open>null\<close>,
  \<^verbatim>\<open>false\<close>, \<^verbatim>\<open>0\<close> and the empty string is truthy.\<close>

fun truthy :: "jsval \<Rightarrow> bool" where
  "truthy None = False"
| "truthy (Some JNull) = False"
| "truthy (Some (JBool b)) = b"
| "truthy (Some (JNum n)) = (n \<noteq> 0)"
| "truthy (Some (JStr s)) = (s \<noteq> [])"
| "truthy (Some (JArr xs)) = True"
| "truthy (Some (JObj kvs)) = True"

text \<open>\<^verbatim>\<open>v || null\<close>.\<close>

fun or_null :: "jsval \<Rightarrow> json" where
  "or_null None = JNull"
| "or_null (Some v) = (if truthy (Some v) then v else JNull)"

text \<open>The errors a call can raise, each with the text of its \<^verbatim>\<open>message\<close>.\<close>

datatype exn = Error string | TypeError string | SyntaxError string

fun message :: "exn \<Rightarrow> string" where
  "message (Error m) = m"
| "message (TypeError m) = m"
| "message (SyntaxError m) = m"

text \<open>The decimal digits of a number, as a template literal prints \<^verbatim>\<open>Date.now()\<close>.\<close>

definition digit :: "nat \<Rightarrow> char" where
  "digit d = ''0123456789'' ! d"

fun decimal :: "nat \<Rightarrow> string" where
  "decimal n = (if n < 10 then [digit n] else decimal (n div 10) @ [digit (n mod 10)])"

declare decimal.simps [simp del]

section \<open>The chat-completion interface\<close>

record tool_call =
  tool_call_id :: string
  function_name :: string
  function_arguments :: string

datatype chat_message =
    System string
  | User string
  | Assistant "string option" "tool_call list"
  | Tool string string

text \<open>A request to \<^verbatim>\<open>openai.chat.completions.create\<close>. \<open>with_tools\<close> says that the request
  carries the tool catalogue with \<^verbatim>\<open>tool_choice: 'auto'\<close>.\<close>

record chat_request =
  model :: string
  messages :: "chat_message list"
  with_tools :: bool
  temperature :: "rat option"
  max_tokens :: nat

record usage =
  prompt_tokens :: nat
  completion_tokens :: nat

text \<open>What the code reads of a response: the message of \<^verbatim>\<open>choices[0]\<close> (its content, which
  may be \<^verbatim>\<open>null\<close>, and its tool calls, empty when there are none) and the usage. A
  response has the shape its type declares: there is a first choice.\<close>

record completion =
  message_content :: "string option"
  message_tool_calls :: "tool_call list"
  response_usage :: "usage option"

section \<open>The environment and the state\<close>

text \<open>
  Everything the program gets from outside is a field of the environment:
  \<^item> \<open>clock\<close>: the \<open>n\<close>-th reading of the system clock that \<^verbatim>\<open>storage.ts\<close> takes
    (\<^verbatim>\<open>Date.now()\<close> and \<^verbatim>\<open>new Date()\<close>), in milliseconds; the readings a library takes for itself
    are not counted;
  \<^item> \<open>provider\<close>: the answer of the \<open>n\<close>-th call of the chat-completion endpoint to a request,
    \<open>Inl\<close> when the call fails (the promise is rejected);
  \<^item> \<open>businessProfile\<close>: the content of \<^verbatim>\<open>data/business-profile.json\<close>;
  \<^item> \<open>stringify\<close>: \<^verbatim>\<open>JSON.stringify(v, null, indent)\<close>, and \<open>json_parse\<close>: \<^verbatim>\<open>JSON.parse\<close>,
    \<open>Inl m\<close> when it throws a SyntaxError with the message \<open>m\<close>;
  \<^item> \<open>number_string\<close>: the text \<^verbatim>\<open>String(n)\<close> of a number;
  \<^item> \<open>iso_string\<close>: \<^verbatim>\<open>toISOString\<close> of the date at a clock reading;
  \<^item> \<open>write_file\<close>: the fate of the \<open>n\<close>-th \<^verbatim>\<open>writeFileSync\<close> of the run, \<open>None\<close> when it
    succeeds and the error it throws otherwise;
  \<^item> \<open>dmp_patch_make\<close>: diff-match-patch's \<^verbatim>\<open>diff_main\<close>, \<^verbatim>\<open>diff_cleanupSemantic\<close>,
    \<^verbatim>\<open>patch_make\<close> and \<^verbatim>\<open>patch_toText\<close> in a row; \<open>dmp_patch_apply\<close>: \<^verbatim>\<open>patch_fromText\<close> and
    \<^verbatim>\<open>patch_apply\<close>, which returns the patched text and one flag per patch;
  \<^item> \<open>html_parse\<close>: node-html-parser's \<^verbatim>\<open>parse\<close>, \<open>Some m\<close> when it throws an error whose
    message prints as \<open>m\<close>.
\<close>

record env =
  clock :: "nat \<Rightarrow> nat"
  provider :: "nat \<Rightarrow> chat_request \<Rightarrow> exn + completion"
  businessProfile :: json
  stringify :: "nat \<Rightarrow> json \<Rightarrow> string"
  json_parse :: "string \<Rightarrow> string + json"
  number_string :: "rat \<Rightarrow> string"
  iso_string :: "nat \<Rightarrow> string"
  write_file :: "nat \<Rightarrow> exn option"
  dmp_patch_make :: "jsval \<Rightarrow> string \<Rightarrow> exn + string"
  dmp_patch_apply :: "string \<Rightarrow> jsval \<Rightarrow> exn + jsval \<times> bool list"
  html_parse :: "jsval \<Rightarrow> string option"

record HtmlDocument =
  id_doc :: string
  content :: jsval
  createdAt :: nat
  updatedAt :: nat

text \<open>
  The module state of \<^verbatim>\<open>storage.ts\<close> and what the two files hold. A file is modelled by the
  data \<^verbatim>\<open>JSON.stringify\<close> last wrote into it; it is \<open>None\<close> when there is no file or when a
  write has failed, after which its content is not determined. \<open>memoryData\<close> holds the
  object's own properties; the names an object inherits from \<^verbatim>\<open>Object.prototype\<close> (such as
  \<^verbatim>\<open>toString\<close> and \<^verbatim>\<open>__proto__\<close>) are keys this model does not cover. A timestamp is the
  clock reading whose ISO text the code stores. \<open>ticks\<close> counts the clock readings taken so
  far, \<open>writes\<close> the calls of \<^verbatim>\<open>writeFileSync\<close>, and \<open>requests\<close> lists the requests sent to
  the provider so far.
\<close>

record world =
  memoryData :: "string \<rightharpoonup> jsval"
  memoryFile :: "(string \<rightharpoonup> json) option"
  htmlDocuments :: "HtmlDocument list"
  htmlDocsFile :: "HtmlDocument list option"
  ticks :: nat
  writes :: nat
  requests :: "chat_request list"

section \<open>Storage\<close>

text \<open>\<^verbatim>\<open>memoryData[key]\<close>: \<^verbatim>\<open>undefined\<close> for a key that is absent.\<close>

definition property :: "(string \<rightharpoonup> jsval) \<Rightarrow> string \<Rightarrow> jsval" where
  "property obj key = (case obj key of None \<Rightarrow> None | Some v \<Rightarrow> v)"

text \<open>What \<^verbatim>\<open>JSON.stringify\<close> keeps of an object: the properties that are not
  \<^verbatim>\<open>undefined\<close>.\<close>

definition serialised :: "(string \<rightharpoonup> jsval) \<Rightarrow> (string \<rightharpoonup> json)" where
  "serialised obj = (\<lambda>key. property obj key)"

definition memoryStorage_read :: "world \<Rightarrow> string \<Rightarrow> json" where
  "memoryStorage_read w key = or_null (property (memoryData w) key)"

text \<open>\<^verbatim>\<open>write\<close> assigns the property, then writes the file: when \<^verbatim>\<open>writeFileSync\<close> throws, the
  error reaches the caller and the property stays assigned.\<close>

definition memoryStorage_write :: "env \<Rightarrow> string \<Rightarrow> jsval \<Rightarrow> world \<Rightarrow> (exn + unit) \<times> world" where
  "memoryStorage_write e key v w =
     (let data = (memoryData w)(key \<mapsto> v)
      in case write_file e (writes w) of
           None \<Rightarrow>
             (Inr (), w\<lparr>memoryData := data, memoryFile := Some (serialised data),
                        writes := writes w + 1\<rparr>)
         | Some err \<Rightarrow>
             (Inl err, w\<lparr>memoryData := data, memoryFile := None, writes := writes w + 1\<rparr>))"

definition memoryStorage_getAll :: "world \<Rightarrow> (string \<rightharpoonup> jsval)" where
  "memoryStorage_getAll w = memoryData w"

text \<open>\<^verbatim>\<open>create\<close> reads the clock three times: \<^verbatim>\<open>Date.now()\<close> for the identifier, then
  \<^verbatim>\<open>new Date()\<close> for \<open>createdAt\<close> and once more for \<open>updatedAt\<close>. The document is pushed
  before the file is written.\<close>

definition htmlDocumentStorage_create ::
  "env \<Rightarrow> jsval \<Rightarrow> world \<Rightarrow> (exn + HtmlDocument) \<times> world" where
  "htmlDocumentStorage_create e c w =
     (let doc = \<lparr>id_doc = ''doc-'' @ decimal (clock e (ticks w)),
                 content = c,
                 createdAt = clock e (ticks w + 1),
                 updatedAt = clock e (ticks w + 2)\<rparr>;
          docs = htmlDocuments w @ [doc]
      in case write_file e (writes w) of
           None \<Rightarrow>
             (Inr doc, w\<lparr>htmlDocuments := docs, htmlDocsFile := Some docs, ticks := ticks w + 3,
                         writes := writes w + 1\<rparr>)
         | Some err \<Rightarrow>
             (Inl err, w\<lparr>htmlDocuments := docs, htmlDocsFile := None, ticks := ticks w + 3,
                         writes := writes w + 1\<rparr>))"

text \<open>\<^verbatim>\<open>htmlDocuments.find(doc => doc.id === id) || null\<close>: the first document with the
  identifier; \<^verbatim>\<open>===\<close> holds for no value that is not a string.\<close>

definition htmlDocumentStorage_get :: "world \<Rightarrow> jsval \<Rightarrow> HtmlDocument option" where
  "htmlDocumentStorage_get w i = find (\<lambda>doc. Some (JStr (id_doc doc)) = i) (htmlDocuments w)"

text \<open>The found document is changed in place, the first one with the identifier, before
  the file is written.\<close>

fun update_first :: "jsval \<Rightarrow> (HtmlDocument \<Rightarrow> HtmlDocument) \<Rightarrow> HtmlDocument list \<Rightarrow> HtmlDocument list" where
  "update_first i f [] = []"
| "update_first i f (doc # docs) =
     (if Some (JStr (id_doc doc)) = i then f doc # docs else doc # update_first i f docs)"

definition htmlDocumentStorage_update ::
  "env \<Rightarrow> jsval \<Rightarrow> jsval \<Rightarrow> world \<Rightarrow> (exn + HtmlDocument option) \<times> world" where
  "htmlDocumentStorage_update e i c w =
     (case htmlDocumentStorage_get w i of
        None \<Rightarrow> (Inr None, w)
      | Some doc \<Rightarrow>
          (let doc' = doc\<lparr>content := c, updatedAt := clock e (ticks w)\<rparr>;
               docs = update_first i (\<lambda>d. doc') (htmlDocuments w)
           in case write_file e (writes w) of
                None \<Rightarrow>
                  (Inr (Some doc'),
                   w\<lparr>htmlDocuments := docs, htmlDocsFile := Some docs, ticks := ticks w + 1,
                     writes := writes w + 1\<rparr>)
              | Some err \<Rightarrow>
                  (Inl err,
                   w\<lparr>htmlDocuments := docs, htmlDocsFile := None, ticks := ticks w + 1,
                     writes := writes w + 1\<rparr>)))"

definition htmlDocumentStorage_getAll :: "world \<Rightarrow> HtmlDocument list" where
  "htmlDocumentStorage_getAll w = htmlDocuments w"

section \<open>Conversions\<close>

text \<open>
  \<^verbatim>\<open>String(v)\<close>, which a template literal and a property access \<^verbatim>\<open>obj[v]\<close> apply to a value
  that is not a string. A number prints as the environment says. An array prints its
  elements joined by commas, with \<^verbatim>\<open>null\<close> as the empty string. An object prints as \<^verbatim>\<open>[object Object]\<close>, unless it has a property
  \<^verbatim>\<open>toString\<close> of its own: a value parsed from JSON is not callable, the inherited
  \<^verbatim>\<open>valueOf\<close> returns the object itself, and the conversion throws a TypeError.
\<close>

fun to_string :: "env \<Rightarrow> json \<Rightarrow> exn + string"
  and join_elements :: "env \<Rightarrow> json list \<Rightarrow> exn + string" where
  "to_string e JNull = Inr ''null''"
| "to_string e (JBool b) = Inr (if b then ''true'' else ''false'')"
| "to_string e (JNum n) = Inr (number_string e n)"
| "to_string e (JStr s) = Inr s"
| "to_string e (JArr xs) = join_elements e xs"
| "to_string e (JObj kvs) =
     (if ''toString'' \<in> set (map fst kvs)
      then Inl (TypeError ''Cannot convert object to primitive value'')
      else Inr ''[object Object]'')"
| "join_elements e [] = Inr []"
| "join_elements e (x # xs) =
     (case (if x = JNull then Inr [] else to_string e x) of
        Inl err \<Rightarrow> Inl err
      | Inr s \<Rightarrow>
          (if xs = [] then Inr s
           else (case join_elements e xs of Inl err \<Rightarrow> Inl err | Inr t \<Rightarrow> Inr (s @ '','' @ t))))"

fun to_js_string :: "env \<Rightarrow> jsval \<Rightarrow> exn + string" where
  "to_js_string e None = Inr ''undefined''"
| "to_js_string e (Some v) = to_string e v"

text \<open>
  \<^verbatim>\<open>args.name\<close>, for the property names the tools read (none of them is inherited from a
  prototype): a TypeError on \<^verbatim>\<open>null\<close>, the property of an object, \<^verbatim>\<open>undefined\<close> on every
  other value.
\<close>

fun get_property :: "json \<Rightarrow> string \<Rightarrow> exn + jsval" where
  "get_property JNull name =
     Inl (TypeError (''Cannot read properties of null (reading '' @ [CHR 0x27] @ name @ [CHR 0x27] @ '')''))"
| "get_property (JObj kvs) name = Inr (map_of kvs name)"
| "get_property v name = Inr None"

text \<open>An object literal as \<^verbatim>\<open>JSON.stringify\<close> sees it: a property that is \<^verbatim>\<open>undefined\<close> is
  left out.\<close>

definition object :: "(string \<times> jsval) list \<Rightarrow> json" where
  "object props = JObj (List.map_filter (\<lambda>(name, v). map_option (Pair name) v) props)"

definition document_json :: "env \<Rightarrow> HtmlDocument \<Rightarrow> json" where
  "document_json e doc =
     object [(''id'', Some (JStr (id_doc doc))),
             (''content'', content doc),
             (''createdAt'', Some (JStr (iso_string e (createdAt doc)))),
             (''updatedAt'', Some (JStr (iso_string e (updatedAt doc))))]"

section \<open>The HTML patch editor\<close>

definition MODEL_NAME :: string where
  "MODEL_NAME = ''gpt-4o-mini''"

text \<open>One call of the provider: the request is sent (and logged), the answer is the
  provider's to the call of that number.\<close>

definition create_completion :: "env \<Rightarrow> chat_request \<Rightarrow> world \<Rightarrow> (exn + completion) \<times> world" where
  "create_completion e req w =
     (provider e (length (requests w)) req, w\<lparr>requests := requests w @ [req]\<rparr>)"

definition generatePatch :: "env \<Rightarrow> jsval \<Rightarrow> string \<Rightarrow> exn + string" where
  "generatePatch e original modified = dmp_patch_make e original modified"

text \<open>The flags of \<^verbatim>\<open>patch_apply\<close> only decide whether a warning is logged.\<close>

definition applyPatch :: "env \<Rightarrow> jsval \<Rightarrow> string \<Rightarrow> exn + jsval" where
  "applyPatch e original patchText =
     (case dmp_patch_apply e patchText original of
        Inl err \<Rightarrow> Inl err
      | Inr (result, success) \<Rightarrow> Inr result)"

datatype validation = Valid | Invalid string

definition validateHtml :: "env \<Rightarrow> jsval \<Rightarrow> validation" where
  "validateHtml e htmlString = (case html_parse e htmlString of None \<Rightarrow> Valid | Some m \<Rightarrow> Invalid m)"

text \<open>
  \<^verbatim>\<open>.replace(/^```html\n?/i, '').replace(/^```\n?/i, '').replace(/\n?```$/i, '').trim()\<close>:
  an opening fence with its line break, a closing fence at the very end with the line
  break before it, then the white space at both ends.
\<close>

definition fence :: string where
  "fence = [CHR 0x60, CHR 0x60, CHR 0x60]"

text \<open>The flag \<^verbatim>\<open>i\<close> of the pattern, on the four letters it has.\<close>

definition lower :: "char \<Rightarrow> char" where
  "lower c = (if c = CHR ''H'' then CHR ''h'' else if c = CHR ''T'' then CHR ''t''
              else if c = CHR ''M'' then CHR ''m'' else if c = CHR ''L'' then CHR ''l'' else c)"

definition drop_line_break :: "string \<Rightarrow> string" where
  "drop_line_break s = (case s of c # rest \<Rightarrow> if c = CHR 0x0A then rest else s | [] \<Rightarrow> s)"

definition strip_html_fence :: "string \<Rightarrow> string" where
  "strip_html_fence s =
     (if take 3 s = fence \<and> map lower (take 4 (drop 3 s)) = ''html'' then drop_line_break (drop 7 s)
      else s)"

definition strip_open_fence :: "string \<Rightarrow> string" where
  "strip_open_fence s = (if take 3 s = fence then drop_line_break (drop 3 s) else s)"

definition strip_close_fence :: "string \<Rightarrow> string" where
  "strip_close_fence s =
     (if 3 \<le> length s \<and> drop (length s - 3) s = fence
      then rev (drop_line_break (rev (take (length s - 3) s)))
      else s)"

definition is_space :: "char \<Rightarrow> bool" where
  "is_space c = (c \<in> set [CHR 0x20, CHR 0x09, CHR 0x0A, CHR 0x0B, CHR 0x0C, CHR 0x0D, CHR 0xA0])"

definition trim :: "string \<Rightarrow> string" where
  "trim s = rev (dropWhile is_space (rev (dropWhile is_space s)))"

definition clean_markdown :: "string \<Rightarrow> string" where
  "clean_markdown s = trim (strip_close_fence (strip_open_fence (strip_html_fence s)))"

definition edit_request :: "string \<Rightarrow> string \<Rightarrow> chat_request" where
  "edit_request html instr =
     \<lparr>model = MODEL_NAME,
      messages =
        [System
           ''You are an HTML editor. Make ONLY the specific change requested in the instruction. Preserve all formatting, structure, and style. Return ONLY the complete HTML code, no markdown, no explanations.'',
         User (''HTML:\<newline>'' @ html @ ''\<newline>\<newline>\<newline>Instruction: '' @ instr @
               ''\<newline>\<newline>Make ONLY the requested change. Return the complete HTML.'')],
      with_tools = False,
      temperature = Some 0,
      max_tokens = 4096\<rparr>"

definition editHtmlWithLLM ::
  "env \<Rightarrow> jsval \<Rightarrow> jsval \<Rightarrow> world \<Rightarrow> (exn + jsval \<times> string) \<times> world" where
  "editHtmlWithLLM e originalHtml instruction w =
     (case to_js_string e originalHtml of
        Inl err \<Rightarrow> (Inl err, w)
      | Inr html \<Rightarrow>
     (case to_js_string e instruction of
        Inl err \<Rightarrow> (Inl err, w)
      | Inr instr \<Rightarrow>
     (case create_completion e (edit_request html instr) w of
        (Inl err, w') \<Rightarrow> (Inl err, w')
      | (Inr editResponse, w') \<Rightarrow>
     (let edited = clean_markdown (case message_content editResponse of None \<Rightarrow> [] | Some s \<Rightarrow> s)
      in
     (case generatePatch e originalHtml edited of
        Inl err \<Rightarrow> (Inl err, w')
      | Inr patch \<Rightarrow>
     (case applyPatch e originalHtml patch of
        Inl err \<Rightarrow> (Inl err, w')
      | Inr finalHtml \<Rightarrow>
     (case validateHtml e finalHtml of
        Valid \<Rightarrow> (Inr (finalHtml, patch), w')
      | Invalid m \<Rightarrow>
          (case validateHtml e (Some (JStr edited)) of
             Valid \<Rightarrow> (Inr (Some (JStr edited), patch), w')
           | Invalid m' \<Rightarrow> (Inl (Error (''HTML validation failed: '' @ m)), w')))))))))"

section \<open>The tools\<close>

definition fakeMemoryStory :: string where
  "fakeMemoryStory =
     ''This is long-term memory for TechCorp Solutions. \<newline>'' @
     ''\<newline>'' @
     ''TechCorp Solutions was founded in 2020 with a vision to revolutionize technology consulting. Over the years, the company has grown from a small startup in San Francisco to a thriving organization with 150 employees. \<newline>'' @
     ''\<newline>'' @
     ''Key milestones in the company's history:\<newline>'' @
     ''- 2020: Company founded by a team of former Silicon Valley engineers\<newline>'' @
     ''- 2021: Secured first major client, Fortune 500 Financial Services\<newline>'' @
     ''- 2022: Expanded services to include AI and Machine Learning integration\<newline>'' @
     ''- 2023: Opened new headquarters in San Francisco and reached 100 employees\<newline>'' @
     ''- 2024: Launched innovative cloud infrastructure solutions and reached 150 employees\<newline>'' @
     ''\<newline>'' @
     ''The company culture is built on four core values: Innovation, Customer-Centricity, Integrity, and Excellence. These values guide every project and client interaction.\<newline>'' @
     ''\<newline>'' @
     ''TechCorp Solutions has successfully completed over 500 projects, helping mid-market companies transform their technology infrastructure. The company is known for its expertise in cloud migration, AI integration, and digital transformation.\<newline>'' @
     ''\<newline>'' @
     ''This long-term memory contains the foundational knowledge about TechCorp Solutions that persists across all conversations. When you need to reference company history, values, or key information, this memory provides the context.''"

definition success_json :: "bool \<Rightarrow> string \<Rightarrow> json" where
  "success_json ok msg = object [(''success'', Some (JBool ok)), (''message'', Some (JStr msg))]"

definition success_document_json :: "env \<Rightarrow> HtmlDocument \<Rightarrow> string \<Rightarrow> json" where
  "success_document_json e doc msg =
     object [(''success'', Some (JBool True)),
             (''document'', Some (document_json e doc)),
             (''message'', Some (JStr msg))]"

definition read_business_profile :: "env \<Rightarrow> world \<Rightarrow> (exn + string) \<times> world" where
  "read_business_profile e w = (Inr (stringify e 2 (businessProfile e)), w)"

text \<open>\<^verbatim>\<open>memoryData[key]\<close> converts a key that is not a string before the access; the
  answer carries \<^verbatim>\<open>args.key\<close> as it came.\<close>

definition read_long_term_memory :: "env \<Rightarrow> json \<Rightarrow> world \<Rightarrow> (exn + string) \<times> world" where
  "read_long_term_memory e args w =
     (case get_property args ''key'' of
        Inl err \<Rightarrow> (Inl err, w)
      | Inr key \<Rightarrow>
     (case to_js_string e key of
        Inl err \<Rightarrow> (Inl err, w)
      | Inr k \<Rightarrow>
     (let memoryValue = memoryStorage_read w k
      in if truthy (Some memoryValue)
         then (Inr (stringify e 0 (object [(''key'', key), (''value'', Some memoryValue)])), w)
         else (Inr (stringify e 0
                 (object [(''key'', key),
                          (''value'', Some (JStr fakeMemoryStory)),
                          (''message'', Some (JStr 
                            ''Long-term memory accessed successfully. This contains foundational information about TechCorp Solutions.''))])), w))))"

definition write_long_term_memory :: "env \<Rightarrow> json \<Rightarrow> world \<Rightarrow> (exn + string) \<times> world" where
  "write_long_term_memory e args w =
     (case get_property args ''key'' of
        Inl err \<Rightarrow> (Inl err, w)
      | Inr key \<Rightarrow>
     (case get_property args ''value'' of
        Inl err \<Rightarrow> (Inl err, w)
      | Inr v \<Rightarrow>
     (case to_js_string e key of
        Inl err \<Rightarrow> (Inl err, w)
      | Inr k \<Rightarrow>
     (case memoryStorage_write e k v w of
        (Inl err, w') \<Rightarrow> (Inl err, w')
      | (Inr written, w') \<Rightarrow>
          (Inr (stringify e 0 (success_json True (''Stored value for key: '' @ k))), w')))))"

definition create_html_document :: "env \<Rightarrow> json \<Rightarrow> world \<Rightarrow> (exn + string) \<times> world" where
  "create_html_document e args w =
     (case get_property args ''content'' of
        Inl err \<Rightarrow> (Inl err, w)
      | Inr c \<Rightarrow>
     (case htmlDocumentStorage_create e c w of
        (Inl err, w') \<Rightarrow> (Inl err, w')
      | (Inr newDoc, w') \<Rightarrow>
          (Inr (stringify e 0
             (success_document_json e newDoc (''Created HTML document with ID: '' @ id_doc newDoc))),
           w')))"

text \<open>The body of the \<^verbatim>\<open>try\<close> block of \<^verbatim>\<open>edit_html_document\<close>.\<close>

definition edit_html_document_try ::
  "env \<Rightarrow> json \<Rightarrow> jsval \<Rightarrow> HtmlDocument \<Rightarrow> world \<Rightarrow> (exn + string) \<times> world" where
  "edit_html_document_try e args documentId existingDoc w =
     (case get_property args ''editDescription'' of
        Inl err \<Rightarrow> (Inl err, w)
      | Inr editDescription \<Rightarrow>
     (case editHtmlWithLLM e (content existingDoc) editDescription w of
        (Inl err, w1) \<Rightarrow> (Inl err, w1)
      | (Inr (updatedHtml, patch), w1) \<Rightarrow>
     (case htmlDocumentStorage_update e documentId updatedHtml w1 of
        (Inl err, w2) \<Rightarrow> (Inl err, w2)
      | (Inr None, w2) \<Rightarrow>
          (case to_js_string e documentId of
             Inl err \<Rightarrow> (Inl err, w2)
           | Inr i \<Rightarrow>
               (Inr (stringify e 0 (success_json False (''Failed to update document with ID '' @ i))), w2))
      | (Inr (Some updatedDoc), w2) \<Rightarrow>
          (case to_js_string e documentId of
             Inl err \<Rightarrow> (Inl err, w2)
           | Inr i \<Rightarrow>
          (case to_js_string e editDescription of
             Inl err \<Rightarrow> (Inl err, w2)
           | Inr d \<Rightarrow>
               (Inr (stringify e 0
                  (success_document_json e updatedDoc
                     (''Updated HTML document with ID: '' @ i @ ''. Made the requested change: '' @ d))),
                w2))))))"

text \<open>The lookup, then the \<^verbatim>\<open>try\<close> block with its \<^verbatim>\<open>catch\<close>, which turns every error of the
  block into a result, also that of a write of the file.\<close>

definition edit_html_document :: "env \<Rightarrow> json \<Rightarrow> world \<Rightarrow> (exn + string) \<times> world" where
  "edit_html_document e args w =
     (case get_property args ''documentId'' of
        Inl err \<Rightarrow> (Inl err, w)
      | Inr documentId \<Rightarrow>
     (case htmlDocumentStorage_get w documentId of
        None \<Rightarrow>
          (case to_js_string e documentId of
             Inl err \<Rightarrow> (Inl err, w)
           | Inr i \<Rightarrow>
               (Inr (stringify e 0 (success_json False (''Document with ID '' @ i @ '' not found''))), w))
      | Some existingDoc \<Rightarrow>
          (case edit_html_document_try e args documentId existingDoc w of
             (Inl error, w') \<Rightarrow>
               (Inr (stringify e 0 (success_json False (''Error editing document: '' @ message error))), w')
           | (Inr result, w') \<Rightarrow> (Inr result, w'))))"

definition list_html_documents :: "env \<Rightarrow> world \<Rightarrow> (exn + string) \<times> world" where
  "list_html_documents e w =
     (Inr (stringify e 0
        (object [(''documents'',
           Some (JArr (map (\<lambda>doc. object [(''id'', Some (JStr (id_doc doc))),
                                           (''createdAt'', Some (JStr (iso_string e (createdAt doc)))),
                                           (''updatedAt'', Some (JStr (iso_string e (updatedAt doc))))])
                        (htmlDocumentStorage_getAll w))))])), w)"

definition generate_request :: "string \<Rightarrow> chat_request" where
  "generate_request description =
     \<lparr>model = MODEL_NAME,
      messages =
        [System
           ''You are an expert HTML developer. Generate clean, modern, and well-structured HTML5 documents. Always include proper DOCTYPE, head, and body tags. Use modern CSS for styling. Make the HTML visually appealing and responsive. Return ONLY the HTML code, no markdown formatting, no code blocks, no explanations - just the raw HTML.'',
         User (''Generate a complete, standalone HTML document for: '' @ description)],
      with_tools = False,
      temperature = Some (7 / 10),
      max_tokens = 4096\<rparr>"

definition generate_html_with_llm :: "env \<Rightarrow> json \<Rightarrow> world \<Rightarrow> (exn + string) \<times> world" where
  "generate_html_with_llm e args w =
     (case get_property args ''description'' of
        Inl err \<Rightarrow> (Inl err, w)
      | Inr description \<Rightarrow>
     (case to_js_string e description of
        Inl err \<Rightarrow> (Inl err, w)
      | Inr d \<Rightarrow>
     (case create_completion e (generate_request d) w of
        (Inl err, w1) \<Rightarrow> (Inl err, w1)
      | (Inr htmlGenerationResponse, w1) \<Rightarrow>
     (let generatedHtml =
            clean_markdown (case message_content htmlGenerationResponse of None \<Rightarrow> [] | Some s \<Rightarrow> s)
      in
     (case htmlDocumentStorage_create e (Some (JStr generatedHtml)) w1 of
        (Inl err, w2) \<Rightarrow> (Inl err, w2)
      | (Inr generatedDoc, w2) \<Rightarrow>
          (Inr (stringify e 0
             (success_document_json e generatedDoc
                (''Generated and created HTML document with ID: '' @ id_doc generatedDoc))),
           w2))))))"

definition executeTool :: "env \<Rightarrow> string \<Rightarrow> json \<Rightarrow> world \<Rightarrow> (exn + string) \<times> world" where
  "executeTool e toolName args w =
     (if toolName = ''read_business_profile'' then read_business_profile e w
      else if toolName = ''read_long_term_memory'' then read_long_term_memory e args w
      else if toolName = ''write_long_term_memory'' then write_long_term_memory e args w
      else if toolName = ''create_html_document'' then create_html_document e args w
      else if toolName = ''edit_html_document'' then edit_html_document e args w
      else if toolName = ''list_html_documents'' then list_html_documents e w
      else if toolName = ''generate_html_with_llm'' then generate_html_with_llm e args w
      else (Inr (stringify e 0 (object [(''error'', Some (JStr (''Unknown tool: '' @ toolName)))])), w))"

section \<open>Double-precision numbers\<close>

text \<open>
  The costs are JavaScript numbers, IEEE 754 doubles. A double that is finite and not
  negative is modelled by a fraction of two natural numbers, a numerator and a positive
  denominator, whose quotient is its exact value. The exponent range is not modelled: the
  numbers of the ledger are far from overflow and underflow.
\<close>

type_synonym double = "nat \<times> nat"

definition dval :: "double \<Rightarrow> rat" where
  "dval x = of_nat (fst x) / of_nat (snd x)"

text \<open>The number of binary digits of a number.\<close>

fun bits :: "nat \<Rightarrow> nat" where
  "bits n = (if n = 0 then 0 else Suc (bits (n div 2)))"

declare bits.simps [simp del]

text \<open>The integer nearest to \<open>n / d\<close>, the even one of two that are equally near.\<close>

definition round_half_even :: "nat \<Rightarrow> nat \<Rightarrow> nat" where
  "round_half_even n d =
     (if 2 * (n mod d) < d then n div d
      else if d < 2 * (n mod d) then n div d + 1
      else if even (n div d) then n div d else n div d + 1)"

text \<open>
  The double nearest to \<open>a / b\<close> (round to nearest, ties to even), for \<open>b\<close> positive: the
  quotient is scaled by a power of two into the range from \<open>2\<^sup>5\<^sup>2\<close> to \<open>2\<^sup>5\<^sup>4\<close>, rounded to
  an integer of 53 binary digits, and scaled back. This is the value of a decimal literal,
  of \<^verbatim>\<open>parseFloat\<close> of a decimal text, and of an arithmetic operation on the exact values of
  its operands.
\<close>

definition nearest_double :: "nat \<Rightarrow> nat \<Rightarrow> double" where
  "nearest_double a b =
     (if a = 0 then (0, 1)
      else
        (let up = (if bits a < bits b + 53 then 2 ^ (bits b + 53 - bits a) else 1);
             dn = (if bits a < bits b + 53 then 1 else 2 ^ (bits a - (bits b + 53)))
         in if a * up < b * dn * 2 ^ 53
            then (round_half_even (a * up) (b * dn) * dn, up)
            else (round_half_even (a * up) (2 * (b * dn)) * (2 * dn), up)))"

text \<open>\<^verbatim>\<open>x / y\<close>, \<^verbatim>\<open>x * y\<close> and \<^verbatim>\<open>x + y\<close> on doubles.\<close>

definition fdiv :: "double \<Rightarrow> double \<Rightarrow> double" where
  "fdiv x y = nearest_double (fst x * snd y) (snd x * fst y)"

definition fmul :: "double \<Rightarrow> double \<Rightarrow> double" where
  "fmul x y = nearest_double (fst x * fst y) (snd x * snd y)"

definition fadd :: "double \<Rightarrow> double \<Rightarrow> double" where
  "fadd x y = nearest_double (fst x * snd y + fst y * snd x) (snd x * snd y)"

text \<open>
  \<^verbatim>\<open>x.toFixed(6)\<close>, as the number of millionths it prints: the integer \<open>n\<close> for which
  \<open>n / 10\<^sup>6\<close> is nearest to the exact value of \<open>x\<close>, the larger of two that are equally
  near. \<^verbatim>\<open>parseFloat\<close> reads the text back as the double nearest to \<open>n / 10\<^sup>6\<close>.
\<close>

definition toFixed6 :: "double \<Rightarrow> nat" where
  "toFixed6 x = (2 * fst x * 10 ^ 6 + snd x) div (2 * snd x)"

definition parseFloat6 :: "nat \<Rightarrow> double" where
  "parseFloat6 n = nearest_double n (10 ^ 6)"

section \<open>The price table\<close>

record pricing =
  input_price :: double
  output_price :: double

text \<open>The double of a price literal with two decimals, such as \<^verbatim>\<open>0.15\<close>: a number of
  hundredths of a dollar.\<close>

definition cents :: "nat \<Rightarrow> double" where
  "cents a = nearest_double a 100"

definition PRICING :: "(string \<times> pricing) list" where
  "PRICING =
     [(''gpt-4o-mini'', \<lparr>input_price = cents 15, output_price = cents 60\<rparr>),
      (''gpt-3.5-turbo'', \<lparr>input_price = cents 50, output_price = cents 150\<rparr>),
      (''gpt-4-turbo-preview'', \<lparr>input_price = cents 1000, output_price = cents 3000\<rparr>),
      (''gpt-4-turbo'', \<lparr>input_price = cents 1000, output_price = cents 3000\<rparr>),
      (''gpt-4'', \<lparr>input_price = cents 3000, output_price = cents 6000\<rparr>)]"

text \<open>\<^verbatim>\<open>PRICING[MODEL_NAME] || PRICING['gpt-4o-mini']\<close>.\<close>

definition modelPricing :: pricing where
  "modelPricing =
     (case map_of PRICING MODEL_NAME of
        Some price \<Rightarrow> price
      | None \<Rightarrow> \<lparr>input_price = cents 15, output_price = cents 60\<rparr>)"

section \<open>The agent loop\<close>

definition systemInstruction :: string where
  "systemInstruction =
     ''You are a helpful business assistant that works with TechCorp Solutions.\<newline>'' @
     ''\<newline>'' @
     ''You should:\<newline>'' @
     ''1. Always read the business profile when starting a conversation\<newline>'' @
     ''2. Use long-term memory to remember important information across conversations\<newline>'' @
     ''3. Help create and edit HTML documents as needed\<newline>'' @
     ''4. Be conversational and helpful\<newline>'' @
     ''\<newline>'' @
     ''The business profile contains information about TechCorp Solutions. Use it to answer questions about the company.''"

datatype role = UserRole | AssistantRole

record agent_message =
  role :: role
  content_msg :: string

text \<open>One entry of the cost ledger and the totals. The token counts are natural numbers
  (the code adds them as doubles, which is exact below \<open>2\<^sup>5\<^sup>3\<close>).\<close>

record CallCost =
  callNumber :: nat
  promptTokens :: nat
  completionTokens :: nat
  cost_call :: double

record CostInfo =
  totalCost :: double
  totalTokens :: nat
  promptTokens_total :: nat
  completionTokens_total :: nat
  calls :: nat
  callCosts_info :: "CallCost list"

record agent_result =
  final_message :: string
  cost :: CostInfo
  documentId_result :: jsval

text \<open>The local variables of \<^verbatim>\<open>runAgent\<close> that change from one model call to the next.\<close>

record agent_state =
  messagesToSend :: "chat_message list"
  assistant_content :: "string option"
  assistant_tool_calls :: "tool_call list"
  documentId :: jsval
  totalPromptTokens :: nat
  totalCompletionTokens :: nat
  apiCalls :: nat
  callCosts :: "CallCost list"

text \<open>
  The helper \<^verbatim>\<open>trackCallCost\<close>, with the price table it closes over as a parameter:
  \<^verbatim>\<open>inputCost = (promptTokens / 1_000_000) * modelPricing.input\<close>, the same for the output,
  their sum, and \<^verbatim>\<open>parseFloat(callCost.toFixed(6))\<close>. Nothing is recorded without a usage.
\<close>

definition trackCallCost :: "pricing \<Rightarrow> usage option \<Rightarrow> nat \<Rightarrow> agent_state \<Rightarrow> agent_state" where
  "trackCallCost price u n st =
     (case u of
        None \<Rightarrow> st
      | Some us \<Rightarrow>
          (let inputCost = fmul (fdiv (prompt_tokens us, 1) (10 ^ 6, 1)) (input_price price);
               outputCost = fmul (fdiv (completion_tokens us, 1) (10 ^ 6, 1)) (output_price price);
               callCost = fadd inputCost outputCost
           in st\<lparr>totalPromptTokens := totalPromptTokens st + prompt_tokens us,
                 totalCompletionTokens := totalCompletionTokens st + completion_tokens us,
                 callCosts := callCosts st @
                   [\<lparr>callNumber = n, promptTokens = prompt_tokens us,
                     completionTokens = completion_tokens us,
                     cost_call = parseFloat6 (toFixed6 callCost)\<rparr>]\<rparr>))"

definition agent_request :: "chat_message list \<Rightarrow> chat_request" where
  "agent_request msgs =
     \<lparr>model = MODEL_NAME, messages = msgs, with_tools = True, temperature = None,
      max_tokens = 4096\<rparr>"

definition to_chat_message :: "agent_message \<Rightarrow> chat_message" where
  "to_chat_message msg =
     (case role msg of
        UserRole \<Rightarrow> User (content_msg msg)
      | AssistantRole \<Rightarrow> Assistant (Some (content_msg msg)) [])"

definition init_tool_call :: tool_call where
  "init_tool_call =
     \<lparr>tool_call_id = ''call_init_business_profile'',
      function_name = ''read_business_profile'',
      function_arguments = ''{}''\<rparr>"

text \<open>
  The identifier the loop reads off a tool result:
  \<^verbatim>\<open>try { resultObj = JSON.parse(result); if (resultObj.document && resultObj.document.id) ... }\<close>,
  with every error ignored. \<open>None\<close>: \<^verbatim>\<open>documentId\<close> is not assigned.
\<close>

definition document_id_of_result :: "env \<Rightarrow> string \<Rightarrow> jsval" where
  "document_id_of_result e result =
     (case json_parse e result of
        Inl m \<Rightarrow> None
      | Inr resultObj \<Rightarrow>
     (case get_property resultObj ''document'' of
        Inl err \<Rightarrow> None
      | Inr None \<Rightarrow> None
      | Inr (Some doc) \<Rightarrow>
          (if truthy (Some doc)
           then (case get_property doc ''id'' of
                   Inl err \<Rightarrow> None
                 | Inr i \<Rightarrow> if truthy i then i else None)
           else None)))"

text \<open>The \<^verbatim>\<open>for\<close> loop over the tool calls of one assistant turn. The results are collected
  in \<open>toolCallResults\<close>, which reaches the transcript only after the last call.\<close>

fun run_tool_calls ::
  "env \<Rightarrow> tool_call list \<Rightarrow> chat_message list \<Rightarrow> jsval \<Rightarrow> world
     \<Rightarrow> (exn + chat_message list \<times> jsval) \<times> world" where
  "run_tool_calls e [] toolCallResults docId w = (Inr (toolCallResults, docId), w)"
| "run_tool_calls e (toolCall # rest) toolCallResults docId w =
     (case json_parse e (function_arguments toolCall) of
        Inl m \<Rightarrow> (Inl (SyntaxError m), w)
      | Inr args \<Rightarrow>
     (case executeTool e (function_name toolCall) args w of
        (Inl err, w') \<Rightarrow> (Inl err, w')
      | (Inr result, w') \<Rightarrow>
          run_tool_calls e rest (toolCallResults @ [Tool (tool_call_id toolCall) result])
            (if function_name toolCall = ''create_html_document''
                \<or> function_name toolCall = ''edit_html_document''
                \<or> function_name toolCall = ''generate_html_with_llm''
             then (case document_id_of_result e result of None \<Rightarrow> docId | Some i \<Rightarrow> Some i)
             else docId)
            w'))"

text \<open>What a response of the provider does to the local variables.\<close>

definition receive :: "completion \<Rightarrow> chat_message list \<Rightarrow> jsval \<Rightarrow> agent_state \<Rightarrow> agent_state" where
  "receive response sent docId st =
     trackCallCost modelPricing (response_usage response) (apiCalls st + 1)
       (st\<lparr>messagesToSend := sent @ [Assistant (message_content response) (message_tool_calls response)],
           assistant_content := message_content response,
           assistant_tool_calls := message_tool_calls response,
           documentId := docId,
           apiCalls := apiCalls st + 1\<rparr>)"

text \<open>
  The \<^verbatim>\<open>while\<close> loop. The source bounds it by nothing: it runs until the provider
  answers with no tool call. Here it has fuel for that many rounds, and \<open>None\<close> is the
  result of a run that needs more.
\<close>

fun agent_loop :: "nat \<Rightarrow> env \<Rightarrow> agent_state \<Rightarrow> world \<Rightarrow> (exn + agent_state) option \<times> world" where
  "agent_loop 0 e st w =
     (if assistant_tool_calls st = [] then (Some (Inr st), w) else (None, w))"
| "agent_loop (Suc fuel) e st w =
     (if assistant_tool_calls st = [] then (Some (Inr st), w)
      else
     (case run_tool_calls e (assistant_tool_calls st) [] (documentId st) w of
        (Inl err, w1) \<Rightarrow> (Some (Inl err), w1)
      | (Inr (toolCallResults, docId), w1) \<Rightarrow>
     (case create_completion e (agent_request (messagesToSend st @ toolCallResults)) w1 of
        (Inl err, w2) \<Rightarrow> (Some (Inl err), w2)
      | (Inr response, w2) \<Rightarrow>
          agent_loop fuel e (receive response (messagesToSend st @ toolCallResults) docId st) w2)))"

definition isNewConversation :: "agent_message list \<Rightarrow> bool" where
  "isNewConversation msgs = (length msgs = 1 \<and> role (msgs ! 0) = UserRole)"

definition initial_state :: agent_state where
  "initial_state =
     \<lparr>messagesToSend = [], assistant_content = None, assistant_tool_calls = [],
      documentId = None, totalPromptTokens = 0, totalCompletionTokens = 0, apiCalls = 0,
      callCosts = []\<rparr>"

text \<open>The value \<^verbatim>\<open>runAgent\<close> returns: \<^verbatim>\<open>totalCost\<close> is
  \<^verbatim>\<open>callCosts.reduce((sum, call) => sum + call.cost, 0)\<close>, rounded as each cost was.\<close>

definition result_of :: "agent_state \<Rightarrow> agent_result" where
  "result_of st =
     \<lparr>final_message =
        (case assistant_content st of
           None \<Rightarrow> ''No response generated''
         | Some s \<Rightarrow> if s = [] then ''No response generated'' else s),
      cost = \<lparr>totalCost = parseFloat6 (toFixed6 (foldl fadd (0, 1) (map cost_call (callCosts st)))),
               totalTokens = totalPromptTokens st + totalCompletionTokens st,
               promptTokens_total = totalPromptTokens st,
               completionTokens_total = totalCompletionTokens st,
               calls = apiCalls st,
               callCosts_info = callCosts st\<rparr>,
      documentId_result = documentId st\<rparr>"

text \<open>The transcript \<^verbatim>\<open>conversationMessages\<close> that \<^verbatim>\<open>runAgent\<close> builds before its first model
  call: the system message, the injected profile turns of a new conversation, then the
  incoming messages.\<close>

definition init_conversation ::
  "env \<Rightarrow> agent_message list \<Rightarrow> world \<Rightarrow> (exn + chat_message list) \<times> world" where
  "init_conversation e msgs w =
     (case (if isNewConversation msgs
            then (case executeTool e ''read_business_profile'' (JObj []) w of
                    (Inl err, w') \<Rightarrow> (Inl err, w')
                  | (Inr profileResult, w') \<Rightarrow>
                      (Inr [Assistant None [init_tool_call],
                            Tool ''call_init_business_profile'' profileResult], w'))
            else (Inr [], w)) of
        (Inl err, w0) \<Rightarrow> (Inl err, w0)
      | (Inr injected, w0) \<Rightarrow>
          (Inr ([System systemInstruction] @ injected @ map to_chat_message msgs), w0))"

definition runAgent ::
  "nat \<Rightarrow> env \<Rightarrow> agent_message list \<Rightarrow> world \<Rightarrow> (exn + agent_result) option \<times> world" where
  "runAgent fuel e msgs w =
     (case init_conversation e msgs w of
        (Inl err, w0) \<Rightarrow> (Some (Inl err), w0)
      | (Inr conversationMessages, w0) \<Rightarrow>
     (case create_completion e (agent_request conversationMessages) w0 of
        (Inl err, w1) \<Rightarrow> (Some (Inl err), w1)
      | (Inr response, w1) \<Rightarrow>
     (case agent_loop fuel e (receive response conversationMessages None initial_state) w1 of
        (None, w2) \<Rightarrow> (None, w2)
      | (Some (Inl err), w2) \<Rightarrow> (Some (Inl err), w2)
      | (Some (Inr st), w2) \<Rightarrow> (Some (Inr (result_of st)), w2))))"

section \<open>Sample environments and states\<close>

text \<open>The state of a process that found neither file.\<close>

definition initial_world :: world where
  "initial_world =
     \<lparr>memoryData = Map.empty, memoryFile = None, htmlDocuments = [], htmlDocsFile = None,
      ticks = 0, writes = 0, requests = []\<rparr>"

text \<open>A printer of numbers that is right on the integers below \<open>10\<^sup>2\<^sup>1\<close>: it prints the
  integer part.\<close>

definition sample_number_string :: "rat \<Rightarrow> string" where
  "sample_number_string n =
     (if n < 0 then ''-'' @ decimal (nat (- \<lfloor>n\<rfloor>)) else decimal (nat \<lfloor>n\<rfloor>))"

text \<open>A serialiser that prints compactly, whatever the indent, and escapes nothing.\<close>

fun sample_stringify :: "json \<Rightarrow> string"
  and sample_elements :: "json list \<Rightarrow> string"
  and sample_properties :: "(string \<times> json) list \<Rightarrow> string" where
  "sample_stringify JNull = ''null''"
| "sample_stringify (JBool b) = (if b then ''true'' else ''false'')"
| "sample_stringify (JNum n) = sample_number_string n"
| "sample_stringify (JStr s) = [CHR 0x22] @ s @ [CHR 0x22]"
| "sample_stringify (JArr xs) = ''['' @ sample_elements xs @ '']''"
| "sample_stringify (JObj kvs) = ''{'' @ sample_properties kvs @ ''}''"
| "sample_elements [] = []"
| "sample_elements (x # xs) = sample_stringify x @ (if xs = [] then [] else '','' @ sample_elements xs)"
| "sample_properties [] = []"
| "sample_properties (kv # kvs) =
     [CHR 0x22] @ fst kv @ [CHR 0x22] @ '':'' @ sample_stringify (snd kv) @
     (if kvs = [] then [] else '','' @ sample_properties kvs)"

text \<open>
  An environment to run the definitions in: a clock that advances by a millisecond at
  every reading, a provider that cannot be reached, a parser that knows the empty object
  only, a disk every write to which succeeds, a patch library whose patch is the new text
  (and gives it back when applied), and an HTML parser that throws on no text, as
  \<^verbatim>\<open>parse\<close> of node-html-parser builds a tree from every text.
\<close>

definition sample_env :: env where
  "sample_env =
     \<lparr>clock = (\<lambda>n. 1700000000000 + n),
      provider = (\<lambda>n req. Inl (Error ''Connection error.'')),
      businessProfile = JObj [(''companyName'', JStr ''TechCorp Solutions'')],
      stringify = (\<lambda>indent v. sample_stringify v),
      json_parse = (\<lambda>s. if s = ''{}'' then Inr (JObj []) else Inl ''Unexpected token''),
      number_string = sample_number_string,
      iso_string = decimal,
      write_file = (\<lambda>n. None),
      dmp_patch_make = (\<lambda>original modified. Inr modified),
      dmp_patch_apply = (\<lambda>patchText original. Inr (Some (JStr patchText), [True])),
      html_parse = (\<lambda>html. None)\<rparr>"

text \<open>A clock that stands still: every reading falls into the same millisecond.\<close>

definition frozen_clock_env :: env where
  "frozen_clock_env = sample_env\<lparr>clock := (\<lambda>n. 1700000000000)\<rparr>"

text \<open>A clock whose millisecond changes between the second and the third reading.\<close>

definition ticking_clock_env :: env where
  "ticking_clock_env =
     sample_env\<lparr>clock := (\<lambda>n. if n < 2 then 1700000000000 else 1700000000001)\<rparr>"

definition first_document :: HtmlDocument where
  "first_document =
     \<lparr>id_doc = ''doc-1700000000000'', content = Some (JStr ''<p>a</p>''),
      createdAt = 1700000000000, updatedAt = 1700000000000\<rparr>"

definition second_document :: HtmlDocument where
  "second_document =
     \<lparr>id_doc = ''doc-1700000000000'', content = Some (JStr ''<p>b</p>''),
      createdAt = 1700000000000, updatedAt = 1700000000000\<rparr>"

definition stamped_document :: HtmlDocument where
  "stamped_document =
     \<lparr>id_doc = ''doc-1700000000000'', content = Some (JStr ''<p>a</p>''),
      createdAt = 1700000000000, updatedAt = 1700000000001\<rparr>"

definition one_document_world :: world where
  "one_document_world =
     initial_world\<lparr>htmlDocuments := [first_document], htmlDocsFile := Some [first_document],
       ticks := 3, writes := 1\<rparr>"

text \<open>A provider that answers every request with the same HTML and no tool call.\<close>

definition answering_provider :: "nat \<Rightarrow> chat_request \<Rightarrow> exn + completion" where
  "answering_provider n req =
     Inr \<lparr>message_content = Some ''<p>new</p>'', message_tool_calls = [], response_usage = None\<rparr>"

definition answering_env :: env where
  "answering_env = sample_env\<lparr>provider := answering_provider\<rparr>"

text \<open>A provider that asks for one tool call whose arguments are cut off.\<close>

definition malformed_call :: tool_call where
  "malformed_call =
     \<lparr>tool_call_id = ''call_1'', function_name = ''create_html_document'',
      function_arguments = ''{content: ''\<rparr>"

definition malformed_call_provider :: "nat \<Rightarrow> chat_request \<Rightarrow> exn + completion" where
  "malformed_call_provider n req =
     Inr \<lparr>message_content = None, message_tool_calls = [malformed_call],
          response_usage = Some \<lparr>prompt_tokens = 1000, completion_tokens = 500\<rparr>\<rparr>"

definition malformed_call_env :: env where
  "malformed_call_env = sample_env\<lparr>provider := malformed_call_provider\<rparr>"



text \<open>A disk that is full: every write fails.\<close>

definition full_disk_env :: env where
  "full_disk_env =
     sample_env\<lparr>write_file := (\<lambda>n. Some (Error ''ENOSPC: no space left on device, write''))\<rparr>"

text \<open>The ledger after the two calls of the scenario: 1000 and 500 tokens, then 200 and
  100.\<close>

definition two_calls_state :: agent_state where
  "two_calls_state =
     trackCallCost modelPricing (Some \<lparr>prompt_tokens = 200, completion_tokens = 100\<rparr>) 2
       (trackCallCost modelPricing (Some \<lparr>prompt_tokens = 1000, completion_tokens = 500\<rparr>) 1
          initial_state)"

section \<open>Predicates the statements use\<close>

text \<open>The names of the tool catalogue \<^verbatim>\<open>tools\<close>.\<close>

definition tool_names :: "string list" where
  "tool_names =
     [''read_business_profile'', ''read_long_term_memory'', ''write_long_term_memory'',
      ''create_html_document'', ''edit_html_document'', ''list_html_documents'',
      ''generate_html_with_llm'']"

text \<open>A value that \<^verbatim>\<open>String(v)\<close> converts without an error: no object with a property
  \<^verbatim>\<open>toString\<close> of its own, also not inside an array.\<close>

fun plain :: "json \<Rightarrow> bool" where
  "plain (JArr xs) = (\<forall>x \<in> set xs. plain x)"
| "plain (JObj kvs) = (''toString'' \<notin> set (map fst kvs))"
| "plain v = True"

text \<open>Arguments of which \<^verbatim>\<open>args.name\<close> can be read and converted to a string: they are
  not \<^verbatim>\<open>null\<close>, and the property is absent or plain.\<close>

definition readable :: "json \<Rightarrow> string \<Rightarrow> bool" where
  "readable args name =
     (case get_property args name of
        Inl err \<Rightarrow> False
      | Inr None \<Rightarrow> True
      | Inr (Some v) \<Rightarrow> plain v)"


text \<open>Every identifier of the store is \<^verbatim>\<open>doc-\<close> and a clock reading earlier than the next
  one, and no two documents share one.\<close>

definition stamped_ids :: "env \<Rightarrow> world \<Rightarrow> bool" where
  "stamped_ids e w =
     (distinct (map id_doc (htmlDocuments w)) \<and>
      (\<forall>doc \<in> set (htmlDocuments w). \<exists>t < clock e (ticks w). id_doc doc = ''doc-'' @ decimal t))"

text \<open>The unit roundoff of double precision, and a number that is within \<open>j\<close> roundings
  of a target: between the target times \<open>(1 - u)\<^sup>j\<close> and times \<open>(1 + u)\<^sup>j\<close>.\<close>

definition unit_roundoff :: rat where
  "unit_roundoff = 1 / 2 ^ 53"

definition close_to :: "nat \<Rightarrow> rat \<Rightarrow> rat \<Rightarrow> bool" where
  "close_to j x X = (X * (1 - unit_roundoff) ^ j \<le> x \<and> x \<le> X * (1 + unit_roundoff) ^ j)"

section \<open>Properties of the dispatcher\<close>

lemma plain_to_string:
  "plain v \<Longrightarrow> \<exists>s. to_string e v = Inr s"
  "(\<forall>x \<in> set xs. plain x) \<Longrightarrow> \<exists>s. join_elements e xs = Inr s"
proof (induction e v and e xs rule: to_string_join_elements.induct)
  case (8 e x xs)
  then have "\<exists>s. (if x = JNull then Inr [] else to_string e x) = Inr s"
    by (cases "x = JNull") auto
  then obtain s where s: "(if x = JNull then Inr [] else to_string e x) = Inr s" by blast
  with 8 have "xs \<noteq> [] \<Longrightarrow> \<exists>t. join_elements e xs = Inr t" by auto
  with s show ?case by (cases "xs = []") auto
qed auto

lemma not_plain_to_string:
  "\<not> plain v \<Longrightarrow> \<exists>m. to_string e v = Inl (TypeError m)"
  "\<not> (\<forall>x \<in> set xs. plain x) \<Longrightarrow> \<exists>m. join_elements e xs = Inl (TypeError m)"
proof (induction e v and e xs rule: to_string_join_elements.induct)
  case (8 e x xs)
  show ?case
  proof (cases "plain x")
    case False
    then have n: "x \<noteq> JNull" by auto
    with False 8 obtain m where "to_string e x = Inl (TypeError m)" by blast
    with n show ?thesis by simp
  next
    case True
    then obtain s where s: "(if x = JNull then Inr [] else to_string e x) = Inr s"
      using plain_to_string(1) [of x e] by (cases "x = JNull") auto
    from True "8.prems" have rest: "\<not> (\<forall>y \<in> set xs. plain y)" by simp
    then have "xs \<noteq> []" by auto
    moreover from rest 8 s \<open>xs \<noteq> []\<close> obtain m where "join_elements e xs = Inl (TypeError m)"
      by blast
    ultimately show ?thesis using s by simp
  qed
qed auto

lemma readable_to_js_string:
  assumes "readable args name"
  obtains v s where "get_property args name = Inr v" and "to_js_string e v = Inr s"
proof (cases "get_property args name")
  case (Inl err)
  with assms show ?thesis by (simp add: readable_def)
next
  case (Inr v)
  show ?thesis
  proof (cases v)
    case None
    with Inr that show ?thesis by simp
  next
    case (Some x)
    with Inr assms have "plain x" by (simp add: readable_def)
    then obtain s where "to_string e x = Inr s" using plain_to_string(1) by blast
    with Inr Some that show ?thesis by simp
  qed
qed

lemma get_property_error:
  assumes "get_property args name = Inl err"
  shows "args = JNull \<and> (\<exists>m. err = TypeError m)"
  using assms by (cases args) auto

lemma not_readable:
  assumes "\<not> readable args name"
  shows "(\<exists>m. get_property args name = Inl (TypeError m))
       \<or> (\<exists>v m. get_property args name = Inr (Some v) \<and> \<not> plain v
             \<and> to_js_string e (Some v) = Inl (TypeError m))"
proof (cases "get_property args name")
  case (Inl err)
  with get_property_error [OF Inl] show ?thesis by auto
next
  case (Inr v)
  with assms obtain x where v: "v = Some x" and "\<not> plain x"
    by (cases v) (auto simp: readable_def)
  then obtain m where "to_string e x = Inl (TypeError m)" using not_plain_to_string(1) by blast
  with Inr v \<open>\<not> plain x\<close> show ?thesis by simp
qed

lemma read_long_term_memory_returns:
  "if readable args ''key''
   then \<exists>v. read_long_term_memory e args w = (Inr (stringify e 0 v), w)
   else \<exists>m. read_long_term_memory e args w = (Inl (TypeError m), w)"
proof (cases "readable args ''key''")
  case True
  then obtain key k where "get_property args ''key'' = Inr key" "to_js_string e key = Inr k"
    by (rule readable_to_js_string)
  then have "\<exists>v. read_long_term_memory e args w = (Inr (stringify e 0 v), w)"
    by (auto simp: read_long_term_memory_def Let_def)
  with True show ?thesis by simp
next
  case False
  from not_readable [OF False, of e]
  have "\<exists>m. read_long_term_memory e args w = (Inl (TypeError m), w)"
    by (auto simp: read_long_term_memory_def)
  with False show ?thesis by simp
qed

lemma write_long_term_memory_returns:
  "if readable args ''key''
   then (case write_file e (writes w) of
           None \<Rightarrow> \<exists>v. fst (write_long_term_memory e args w) = Inr (stringify e 0 v)
         | Some err \<Rightarrow> fst (write_long_term_memory e args w) = Inl err)
   else \<exists>m. write_long_term_memory e args w = (Inl (TypeError m), w)"
proof (cases "readable args ''key''")
  case True
  then obtain key k where k: "get_property args ''key'' = Inr key" "to_js_string e key = Inr k"
    by (rule readable_to_js_string)
  then have "args \<noteq> JNull" by auto
  then obtain v where "get_property args ''value'' = Inr v" by (cases args) auto
  with k have "case write_file e (writes w) of
           None \<Rightarrow> \<exists>v. fst (write_long_term_memory e args w) = Inr (stringify e 0 v)
         | Some err \<Rightarrow> fst (write_long_term_memory e args w) = Inl err"
    by (auto simp: write_long_term_memory_def memoryStorage_write_def Let_def split: option.splits)
  with True show ?thesis by simp
next
  case False
  from not_readable [OF False, of e]
  have "\<exists>m. write_long_term_memory e args w = (Inl (TypeError m), w)"
  proof
    assume "\<exists>m. get_property args ''key'' = Inl (TypeError m)"
    then show ?thesis by (auto simp: write_long_term_memory_def)
  next
    assume "\<exists>v m. get_property args ''key'' = Inr (Some v) \<and> \<not> plain v
             \<and> to_js_string e (Some v) = Inl (TypeError m)"
    then obtain v m where k: "get_property args ''key'' = Inr (Some v)"
      and s: "to_js_string e (Some v) = Inl (TypeError m)" by blast
    from k have "args \<noteq> JNull" by auto
    then obtain x where "get_property args ''value'' = Inr x" by (cases args) auto
    with k s show ?thesis by (auto simp: write_long_term_memory_def)
  qed
  with False show ?thesis by simp
qed

lemma create_html_document_returns:
  "if args \<noteq> JNull
   then (case write_file e (writes w) of
           None \<Rightarrow> \<exists>v. fst (create_html_document e args w) = Inr (stringify e 0 v)
         | Some err \<Rightarrow> fst (create_html_document e args w) = Inl err)
   else \<exists>m. create_html_document e args w = (Inl (TypeError m), w)"
proof (cases "args = JNull")
  case True
  then show ?thesis by (simp add: create_html_document_def)
next
  case False
  then obtain c where "get_property args ''content'' = Inr c" by (cases args) auto
  then have "case write_file e (writes w) of
           None \<Rightarrow> \<exists>v. fst (create_html_document e args w) = Inr (stringify e 0 v)
         | Some err \<Rightarrow> fst (create_html_document e args w) = Inl err"
    by (auto simp: create_html_document_def htmlDocumentStorage_create_def Let_def
        split: option.splits)
  with False show ?thesis by simp
qed

lemma edit_html_document_try_returns:
  assumes "edit_html_document_try e args docId existingDoc w = (Inr result, w')"
  shows "\<exists>v. result = stringify e 0 v"
  using assms
  by (auto simp: edit_html_document_try_def split: sum.splits prod.splits option.splits)

lemma htmlDocumentStorage_get_not_plain:
  assumes "\<not> plain v"
  shows "htmlDocumentStorage_get w (Some v) = None"
proof -
  have "v \<noteq> JStr s" for s using assms by auto
  then show ?thesis by (auto simp: htmlDocumentStorage_get_def find_None_iff)
qed

lemma edit_html_document_returns:
  "if readable args ''documentId''
   then \<exists>v. fst (edit_html_document e args w) = Inr (stringify e 0 v)
   else \<exists>m. edit_html_document e args w = (Inl (TypeError m), w)"
proof (cases "readable args ''documentId''")
  case True
  then obtain docId i where d: "get_property args ''documentId'' = Inr docId"
    and i: "to_js_string e docId = Inr i"
    by (rule readable_to_js_string)
  have "\<exists>v. fst (edit_html_document e args w) = Inr (stringify e 0 v)"
  proof (cases "htmlDocumentStorage_get w docId")
    case None
    with d i show ?thesis by (auto simp: edit_html_document_def)
  next
    case (Some existingDoc)
    obtain r w' where t: "edit_html_document_try e args docId existingDoc w = (r, w')"
      by (cases "edit_html_document_try e args docId existingDoc w")
    show ?thesis
    proof (cases r)
      case (Inl err)
      with d Some t show ?thesis by (auto simp: edit_html_document_def)
    next
      case (Inr result)
      with t edit_html_document_try_returns obtain v where "result = stringify e 0 v" by blast
      with d Some t Inr show ?thesis by (auto simp: edit_html_document_def)
    qed
  qed
  with True show ?thesis by simp
next
  case False
  from not_readable [OF False, of e]
  have "\<exists>m. edit_html_document e args w = (Inl (TypeError m), w)"
  proof
    assume "\<exists>m. get_property args ''documentId'' = Inl (TypeError m)"
    then show ?thesis by (auto simp: edit_html_document_def)
  next
    assume "\<exists>v m. get_property args ''documentId'' = Inr (Some v) \<and> \<not> plain v
             \<and> to_js_string e (Some v) = Inl (TypeError m)"
    then obtain v m where k: "get_property args ''documentId'' = Inr (Some v)"
      and p: "\<not> plain v" and s: "to_js_string e (Some v) = Inl (TypeError m)" by blast
    from p have "htmlDocumentStorage_get w (Some v) = None"
      by (rule htmlDocumentStorage_get_not_plain)
    with k s show ?thesis by (auto simp: edit_html_document_def)
  qed
  with False show ?thesis by simp
qed

lemma generate_html_with_llm_returns:
  "if readable args ''description''
   then \<exists>description d.
          get_property args ''description'' = Inr description \<and>
          to_js_string e description = Inr d \<and>
          (case provider e (length (requests w)) (generate_request d) of
             Inl err \<Rightarrow> fst (generate_html_with_llm e args w) = Inl err
           | Inr response \<Rightarrow>
               (case write_file e (writes w) of
                  None \<Rightarrow> \<exists>v. fst (generate_html_with_llm e args w) = Inr (stringify e 0 v)
                | Some err \<Rightarrow> fst (generate_html_with_llm e args w) = Inl err))
   else \<exists>m. generate_html_with_llm e args w = (Inl (TypeError m), w)"
proof (cases "readable args ''description''")
  case True
  then obtain description d where p: "get_property args ''description'' = Inr description"
    and d: "to_js_string e description = Inr d"
    by (rule readable_to_js_string)
  have "case provider e (length (requests w)) (generate_request d) of
             Inl err \<Rightarrow> fst (generate_html_with_llm e args w) = Inl err
           | Inr response \<Rightarrow>
               (case write_file e (writes w) of
                  None \<Rightarrow> \<exists>v. fst (generate_html_with_llm e args w) = Inr (stringify e 0 v)
                | Some err \<Rightarrow> fst (generate_html_with_llm e args w) = Inl err)"
    using p d
    by (auto simp: generate_html_with_llm_def create_completion_def htmlDocumentStorage_create_def
        Let_def split: sum.splits option.splits)
  with True p d show ?thesis by auto
next
  case False
  from not_readable [OF False, of e]
  have "\<exists>m. generate_html_with_llm e args w = (Inl (TypeError m), w)"
    by (auto simp: generate_html_with_llm_def)
  with False show ?thesis by simp
qed

lemma executeTool_unknown:
  assumes "toolName \<notin> set tool_names"
  shows "executeTool e toolName args w =
           (Inr (stringify e 0 (JObj [(''error'', JStr (''Unknown tool: '' @ toolName))])), w)"
  using assms by (simp add: executeTool_def tool_names_def object_def)

text \<open>
  Claim C1, as far as the code goes, tool by tool and for every argument value.
  \<^item> A tool name outside the catalogue gets the JSON text of
    \<^verbatim>\<open>{error: "Unknown tool: <name>"}\<close>; \<^verbatim>\<open>read_business_profile\<close> and \<^verbatim>\<open>list_html_documents\<close>
    return a JSON text. These three read no argument and raise nothing.
  \<^item> \<^verbatim>\<open>read_long_term_memory\<close> and \<^verbatim>\<open>edit_html_document\<close> return a JSON text when their first
    argument (\<^verbatim>\<open>key\<close>, \<^verbatim>\<open>documentId\<close>) can be read and converted to a string, and raise a
    TypeError when not; \<^verbatim>\<open>edit_html_document\<close> catches every failure of the provider, of the
    editor and of the write of the file.
  \<^item> \<^verbatim>\<open>write_long_term_memory\<close> (with a \<^verbatim>\<open>key\<close> that can be read) and \<^verbatim>\<open>create_html_document\<close>
    (with arguments that are not \<^verbatim>\<open>null\<close>) return a JSON text when the write of the file
    succeeds, and raise the error of the write when it fails.
  \<^item> \<^verbatim>\<open>generate_html_with_llm\<close> (with a \<^verbatim>\<open>description\<close> that can be read) raises the
    provider's error when its call of the provider fails, the error of the write when that
    fails, and returns a JSON text otherwise.
\<close>

theorem executeTool_returns_json:
  "(toolName \<notin> set tool_names \<longrightarrow>
      executeTool e toolName args w =
        (Inr (stringify e 0 (JObj [(''error'', JStr (''Unknown tool: '' @ toolName))])), w))
   \<and> executeTool e ''read_business_profile'' args w = (Inr (stringify e 2 (businessProfile e)), w)
   \<and> (\<exists>v. executeTool e ''list_html_documents'' args w = (Inr (stringify e 0 v), w))
   \<and> (if readable args ''key''
       then \<exists>v. executeTool e ''read_long_term_memory'' args w = (Inr (stringify e 0 v), w)
       else \<exists>m. executeTool e ''read_long_term_memory'' args w = (Inl (TypeError m), w))
   \<and> (if readable args ''documentId''
       then \<exists>v. fst (executeTool e ''edit_html_document'' args w) = Inr (stringify e 0 v)
       else \<exists>m. executeTool e ''edit_html_document'' args w = (Inl (TypeError m), w))
   \<and> (if readable args ''key''
       then (case write_file e (writes w) of
               None \<Rightarrow> \<exists>v. fst (executeTool e ''write_long_term_memory'' args w) = Inr (stringify e 0 v)
             | Some err \<Rightarrow> fst (executeTool e ''write_long_term_memory'' args w) = Inl err)
       else \<exists>m. executeTool e ''write_long_term_memory'' args w = (Inl (TypeError m), w))
   \<and> (if args \<noteq> JNull
       then (case write_file e (writes w) of
               None \<Rightarrow> \<exists>v. fst (executeTool e ''create_html_document'' args w) = Inr (stringify e 0 v)
             | Some err \<Rightarrow> fst (executeTool e ''create_html_document'' args w) = Inl err)
       else \<exists>m. executeTool e ''create_html_document'' args w = (Inl (TypeError m), w))
   \<and> (if readable args ''description''
       then \<exists>description d.
              get_property args ''description'' = Inr description \<and>
              to_js_string e description = Inr d \<and>
              (case provider e (length (requests w)) (generate_request d) of
                 Inl err \<Rightarrow> fst (executeTool e ''generate_html_with_llm'' args w) = Inl err
               | Inr response \<Rightarrow>
                   (case write_file e (writes w) of
                      None \<Rightarrow> \<exists>v. fst (executeTool e ''generate_html_with_llm'' args w)
                                    = Inr (stringify e 0 v)
                    | Some err \<Rightarrow> fst (executeTool e ''generate_html_with_llm'' args w) = Inl err))
       else \<exists>m. executeTool e ''generate_html_with_llm'' args w = (Inl (TypeError m), w))"
proof -
  have profile: "executeTool e ''read_business_profile'' args w
      = (Inr (stringify e 2 (businessProfile e)), w)"
    by (simp add: executeTool_def read_business_profile_def)
  have list: "\<exists>v. executeTool e ''list_html_documents'' args w = (Inr (stringify e 0 v), w)"
    by (auto simp: executeTool_def list_html_documents_def)
  have read: "executeTool e ''read_long_term_memory'' args w = read_long_term_memory e args w"
    by (simp add: executeTool_def)
  have edit: "executeTool e ''edit_html_document'' args w = edit_html_document e args w"
    by (simp add: executeTool_def)
  have store: "executeTool e ''write_long_term_memory'' args w = write_long_term_memory e args w"
    by (simp add: executeTool_def)
  have create: "executeTool e ''create_html_document'' args w = create_html_document e args w"
    by (simp add: executeTool_def)
  have generate: "executeTool e ''generate_html_with_llm'' args w = generate_html_with_llm e args w"
    by (simp add: executeTool_def)
  show ?thesis
    unfolding read edit store create generate
    using executeTool_unknown [of toolName e args w] profile list
      read_long_term_memory_returns [of args e w] edit_html_document_returns [of args e w]
      write_long_term_memory_returns [of args e w] create_html_document_returns [of args e w]
      generate_html_with_llm_returns [of args e w]
    by blast
qed

text \<open>Claim C1 as stated fails: with the provider out of reach,
  \<^verbatim>\<open>generate_html_with_llm\<close> raises the provider's error instead of returning a string. The
  memory tools raise a TypeError on arguments that are \<^verbatim>\<open>null\<close>, and on a key that does
  not convert to a string. With the disk full, \<^verbatim>\<open>write_long_term_memory\<close> raises the error of
  the write, after the value has been stored in memory.\<close>

theorem executeTool_raises:
  "executeTool sample_env ''generate_html_with_llm''
     (JObj [(''description'', JStr ''a weather report card'')]) initial_world
   = (Inl (Error ''Connection error.''),
      initial_world\<lparr>requests := [generate_request ''a weather report card'']\<rparr>)
   \<and> executeTool sample_env ''read_long_term_memory'' JNull initial_world
   = (Inl (TypeError ''Cannot read properties of null (reading 'key')''), initial_world)
   \<and> executeTool sample_env ''write_long_term_memory''
     (JObj [(''key'', JObj [(''toString'', JNum 1)]), (''value'', JStr ''v'')]) initial_world
   = (Inl (TypeError ''Cannot convert object to primitive value''), initial_world)
   \<and> fst (executeTool full_disk_env ''write_long_term_memory''
            (JObj [(''key'', JStr ''k''), (''value'', JStr ''v'')]) initial_world)
   = Inl (Error ''ENOSPC: no space left on device, write'')
   \<and> memoryStorage_read
       (snd (executeTool full_disk_env ''write_long_term_memory''
               (JObj [(''key'', JStr ''k''), (''value'', JStr ''v'')]) initial_world)) ''k''
   = JStr ''v''"
  by (simp add: executeTool_def generate_html_with_llm_def read_long_term_memory_def
      write_long_term_memory_def create_completion_def memoryStorage_write_def
      memoryStorage_read_def property_def sample_env_def full_disk_env_def initial_world_def
      Let_def)

theorem executeTool_returns_json_witness:
  "executeTool sample_env ''no_such_tool'' JNull initial_world =
     (Inr (stringify sample_env 0 (JObj [(''error'', JStr ''Unknown tool: no_such_tool'')])),
      initial_world)
   \<and> executeTool sample_env ''read_business_profile'' JNull initial_world =
     (Inr (stringify sample_env 2 (businessProfile sample_env)), initial_world)
   \<and> (\<exists>v. executeTool sample_env ''read_long_term_memory'' (JObj [(''key'', JNum 7)]) initial_world
          = (Inr (stringify sample_env 0 v), initial_world))
   \<and> (\<exists>v. fst (executeTool sample_env ''write_long_term_memory''
                  (JObj [(''key'', JStr ''k''), (''value'', JStr ''v'')]) initial_world)
          = Inr (stringify sample_env 0 v))
   \<and> fst (executeTool full_disk_env ''create_html_document''
            (JObj [(''content'', JStr ''<p>a</p>'')]) initial_world)
       = Inl (Error ''ENOSPC: no space left on device, write'')
   \<and> fst (executeTool sample_env ''generate_html_with_llm''
            (JObj [(''description'', JStr ''a page'')]) initial_world)
       = Inl (Error ''Connection error.'')
   \<and> (\<exists>m. executeTool sample_env ''edit_html_document'' JNull initial_world
          = (Inl (TypeError m), initial_world))"
proof -
  have 1: "''no_such_tool'' \<notin> set tool_names" by (simp add: tool_names_def)
  have 2: "readable (JObj [(''key'', JNum 7)]) ''key''" by (simp add: readable_def)
  have 3: "readable (JObj [(''key'', JStr ''k''), (''value'', JStr ''v'')]) ''key''"
    by (simp add: readable_def)
  have 4: "write_file sample_env (writes initial_world) = None"
    by (simp add: sample_env_def)
  have 5: "write_file full_disk_env (writes initial_world)
      = Some (Error ''ENOSPC: no space left on device, write'')"
    by (simp add: full_disk_env_def sample_env_def)
  have 6: "readable (JObj [(''description'', JStr ''a page'')]) ''description''"
    by (simp add: readable_def)
  have 7: "provider sample_env (length (requests initial_world)) (generate_request ''a page'')
      = Inl (Error ''Connection error.'')"
    by (simp add: sample_env_def)
  have 8: "\<not> readable JNull ''documentId''" by (simp add: readable_def)
  from executeTool_returns_json [of "''no_such_tool''" sample_env JNull initial_world] 1
  have a: "executeTool sample_env ''no_such_tool'' JNull initial_world =
     (Inr (stringify sample_env 0 (JObj [(''error'', JStr ''Unknown tool: no_such_tool'')])),
      initial_world)"
    and b: "executeTool sample_env ''read_business_profile'' JNull initial_world =
     (Inr (stringify sample_env 2 (businessProfile sample_env)), initial_world)"
    and g: "\<exists>m. executeTool sample_env ''edit_html_document'' JNull initial_world
          = (Inl (TypeError m), initial_world)"
    using 8 by simp_all
  from executeTool_returns_json [of "''x''" sample_env "JObj [(''key'', JNum 7)]" initial_world] 2
  have c: "\<exists>v. executeTool sample_env ''read_long_term_memory'' (JObj [(''key'', JNum 7)]) initial_world
          = (Inr (stringify sample_env 0 v), initial_world)"
    by simp
  from executeTool_returns_json [of "''x''" sample_env
      "JObj [(''key'', JStr ''k''), (''value'', JStr ''v'')]" initial_world] 3 4
  have d: "\<exists>v. fst (executeTool sample_env ''write_long_term_memory''
                  (JObj [(''key'', JStr ''k''), (''value'', JStr ''v'')]) initial_world)
          = Inr (stringify sample_env 0 v)"
    by simp
  from executeTool_returns_json [of "''x''" full_disk_env
      "JObj [(''content'', JStr ''<p>a</p>'')]" initial_world] 5
  have e: "fst (executeTool full_disk_env ''create_html_document''
            (JObj [(''content'', JStr ''<p>a</p>'')]) initial_world)
       = Inl (Error ''ENOSPC: no space left on device, write'')"
    by simp
  from executeTool_returns_json [of "''x''" sample_env
      "JObj [(''description'', JStr ''a page'')]" initial_world] 6 7
  have f: "fst (executeTool sample_env ''generate_html_with_llm''
            (JObj [(''description'', JStr ''a page'')]) initial_world)
       = Inl (Error ''Connection error.'')"
    by simp
  from a b c d e f g show ?thesis by blast
qed

section \<open>Properties of the storage\<close>

lemmas storage_defs = memoryStorage_read_def memoryStorage_write_def memoryStorage_getAll_def
  property_def htmlDocumentStorage_create_def htmlDocumentStorage_get_def
  htmlDocumentStorage_update_def

lemmas sample_defs = sample_env_def initial_world_def frozen_clock_env_def ticking_clock_env_def
  first_document_def second_document_def stamped_document_def one_document_world_def

text \<open>
  Claim C2 at a key written with the empty string: the write succeeds, \<^verbatim>\<open>getAll()\<close> holds
  the pair, and \<^verbatim>\<open>read\<close> returns \<^verbatim>\<open>null\<close> instead of the value written, since
  \<^verbatim>\<open>memoryData[key] || null\<close> replaces every falsy value.
\<close>

theorem memoryStorage_read_after_write_empty_string:
  "fst (memoryStorage_write sample_env ''k'' (Some (JStr '''')) initial_world) = Inr ()
   \<and> memoryStorage_read
         (snd (memoryStorage_write sample_env ''k'' (Some (JStr '''')) initial_world)) ''k''
       = JNull
   \<and> memoryStorage_getAll
         (snd (memoryStorage_write sample_env ''k'' (Some (JStr '''')) initial_world)) ''k''
       = Some (Some (JStr ''''))"
  by (simp add: storage_defs sample_env_def initial_world_def Let_def)

text \<open>
  Claim C3 at two consecutive calls of \<^verbatim>\<open>create\<close> within one millisecond: both documents
  get the identifier \<^verbatim>\<open>doc-1700000000000\<close>, the store holds the two of them, and \<^verbatim>\<open>get\<close>
  of the identifier of the second returns the first.
\<close>

theorem create_twice_in_one_millisecond:
  "htmlDocumentStorage_create frozen_clock_env (Some (JStr ''<p>a</p>'')) initial_world
     = (Inr first_document, one_document_world)
   \<and> htmlDocumentStorage_create frozen_clock_env (Some (JStr ''<p>b</p>'')) one_document_world
     = (Inr second_document,
        one_document_world\<lparr>htmlDocuments := [first_document, second_document],
          htmlDocsFile := Some [first_document, second_document], ticks := 6, writes := 2\<rparr>)
   \<and> id_doc second_document = id_doc first_document
   \<and> htmlDocumentStorage_get
         (one_document_world\<lparr>htmlDocuments := [first_document, second_document],
            htmlDocsFile := Some [first_document, second_document], ticks := 6, writes := 2\<rparr>)
         (Some (JStr (id_doc second_document)))
     = Some first_document"
  by (simp add: storage_defs sample_defs Let_def decimal.simps digit_def)

text \<open>
  Claim C8 at a call of \<^verbatim>\<open>create\<close> during which the millisecond changes between the two
  \<^verbatim>\<open>new Date()\<close>: \<^verbatim>\<open>get\<close> of the new identifier returns the document with the content
  given, and its \<open>createdAt\<close> and \<open>updatedAt\<close> differ.
\<close>

theorem create_across_a_millisecond:
  "htmlDocumentStorage_create ticking_clock_env (Some (JStr ''<p>a</p>'')) initial_world
     = (Inr stamped_document,
        initial_world\<lparr>htmlDocuments := [stamped_document],
          htmlDocsFile := Some [stamped_document], ticks := 3, writes := 1\<rparr>)
   \<and> htmlDocumentStorage_get
         (initial_world\<lparr>htmlDocuments := [stamped_document],
            htmlDocsFile := Some [stamped_document], ticks := 3, writes := 1\<rparr>)
         (Some (JStr (id_doc stamped_document)))
     = Some stamped_document
   \<and> createdAt stamped_document \<noteq> updatedAt stamped_document"
  by (simp add: storage_defs sample_defs Let_def decimal.simps digit_def)

lemma find_update_first:
  assumes "find (\<lambda>d. Some (JStr (id_doc d)) = i) docs = Some doc"
    and "Some (JStr (id_doc doc')) = i"
  shows "find (\<lambda>d. Some (JStr (id_doc d)) = i) (update_first i (\<lambda>d. doc') docs) = Some doc'"
  using assms by (induction docs) (auto split: if_splits)

lemma find_id:
  assumes "find (\<lambda>d. Some (JStr (id_doc d)) = i) docs = Some doc"
  shows "Some (JStr (id_doc doc)) = i"
  using assms by (induction docs) (auto split: if_splits)

text \<open>
  Claim C9, as far as the code goes. \<^verbatim>\<open>update\<close> of an identifier that no document has
  returns \<^verbatim>\<open>null\<close> and leaves the whole state, the documents and the file, as it was.
  \<^verbatim>\<open>update\<close> of an identifier of the store changes the first document with it: it gets the
  new content, and \<open>updatedAt\<close> is set to the reading of the clock that the update takes
  (which is later than the stamp before only if the clock has moved on since), and \<^verbatim>\<open>get\<close>
  returns that document afterwards. When the write of the file succeeds, \<^verbatim>\<open>update\<close> returns
  that document and the file holds the documents of the store; when it fails, \<^verbatim>\<open>update\<close>
  raises the error of the write.
\<close>

theorem htmlDocumentStorage_update_effect:
  "(htmlDocumentStorage_get w i = None \<longrightarrow> htmlDocumentStorage_update e i c2 w = (Inr None, w))
   \<and> (\<forall>doc. htmlDocumentStorage_get w i = Some doc \<longrightarrow>
        (case write_file e (writes w) of
           None \<Rightarrow>
             fst (htmlDocumentStorage_update e i c2 w)
               = Inr (Some (doc\<lparr>content := c2, updatedAt := clock e (ticks w)\<rparr>))
             \<and> htmlDocsFile (snd (htmlDocumentStorage_update e i c2 w))
               = Some (htmlDocuments (snd (htmlDocumentStorage_update e i c2 w)))
         | Some err \<Rightarrow> fst (htmlDocumentStorage_update e i c2 w) = Inl err)
        \<and> htmlDocumentStorage_get (snd (htmlDocumentStorage_update e i c2 w)) i
          = Some (doc\<lparr>content := c2, updatedAt := clock e (ticks w)\<rparr>))"
proof (intro conjI impI allI)
  assume "htmlDocumentStorage_get w i = None"
  then show "htmlDocumentStorage_update e i c2 w = (Inr None, w)"
    by (simp add: htmlDocumentStorage_update_def)
next
  fix doc
  assume g: "htmlDocumentStorage_get w i = Some doc"
  then show "case write_file e (writes w) of
           None \<Rightarrow>
             fst (htmlDocumentStorage_update e i c2 w)
               = Inr (Some (doc\<lparr>content := c2, updatedAt := clock e (ticks w)\<rparr>))
             \<and> htmlDocsFile (snd (htmlDocumentStorage_update e i c2 w))
               = Some (htmlDocuments (snd (htmlDocumentStorage_update e i c2 w)))
         | Some err \<Rightarrow> fst (htmlDocumentStorage_update e i c2 w) = Inl err"
    by (simp add: htmlDocumentStorage_update_def Let_def split: option.splits)
  from g have f: "find (\<lambda>d. Some (JStr (id_doc d)) = i) (htmlDocuments w) = Some doc"
    by (simp add: htmlDocumentStorage_get_def)
  have "Some (JStr (id_doc (doc\<lparr>content := c2, updatedAt := clock e (ticks w)\<rparr>))) = i"
    using find_id [OF f] by simp
  from find_update_first [OF f this] g
  show "htmlDocumentStorage_get (snd (htmlDocumentStorage_update e i c2 w)) i
      = Some (doc\<lparr>content := c2, updatedAt := clock e (ticks w)\<rparr>)"
    by (simp add: htmlDocumentStorage_update_def htmlDocumentStorage_get_def Let_def
        split: option.splits)
qed

text \<open>
  Claim C9 as stated fails: an update within the millisecond of the last stamp leaves
  \<open>updatedAt\<close> equal to the stamp before, not strictly later.
\<close>

theorem update_in_the_same_millisecond:
  "htmlDocumentStorage_get one_document_world (Some (JStr ''doc-1700000000000''))
     = Some first_document
   \<and> fst (htmlDocumentStorage_update frozen_clock_env (Some (JStr ''doc-1700000000000''))
            (Some (JStr ''<p>c</p>'')) one_document_world)
     = Inr (Some (first_document\<lparr>content := Some (JStr ''<p>c</p>'')\<rparr>))
   \<and> \<not> updatedAt first_document
         < updatedAt (first_document\<lparr>content := Some (JStr ''<p>c</p>'')\<rparr>)"
  by (simp add: storage_defs sample_defs Let_def)

theorem htmlDocumentStorage_update_effect_witness:
  "htmlDocumentStorage_update sample_env (Some (JStr ''doc-0'')) (Some (JStr ''<p>c</p>''))
       one_document_world
     = (Inr None, one_document_world)
   \<and> fst (htmlDocumentStorage_update sample_env (Some (JStr ''doc-1700000000000''))
            (Some (JStr ''<p>c</p>'')) one_document_world)
     = Inr (Some (first_document\<lparr>content := Some (JStr ''<p>c</p>''),
                    updatedAt := 1700000000003\<rparr>))
   \<and> htmlDocumentStorage_get
         (snd (htmlDocumentStorage_update sample_env (Some (JStr ''doc-1700000000000''))
            (Some (JStr ''<p>c</p>'')) one_document_world))
         (Some (JStr ''doc-1700000000000''))
     = Some (first_document\<lparr>content := Some (JStr ''<p>c</p>''), updatedAt := 1700000000003\<rparr>)
   \<and> fst (htmlDocumentStorage_update full_disk_env (Some (JStr ''doc-1700000000000''))
            (Some (JStr ''<p>c</p>'')) one_document_world)
     = Inl (Error ''ENOSPC: no space left on device, write'')"
  using htmlDocumentStorage_update_effect [of one_document_world "Some (JStr ''doc-0'')"
      sample_env "Some (JStr ''<p>c</p>'')"]
    htmlDocumentStorage_update_effect [of one_document_world "Some (JStr ''doc-1700000000000'')"
      sample_env "Some (JStr ''<p>c</p>'')"]
    htmlDocumentStorage_update_effect [of one_document_world "Some (JStr ''doc-1700000000000'')"
      full_disk_env "Some (JStr ''<p>c</p>'')"]
  by (simp add: htmlDocumentStorage_get_def sample_defs full_disk_env_def)

subsection \<open>What holds of the storage\<close>

lemma digit_inj:
  assumes "a < 10" and "b < 10" and "digit a = digit b"
  shows "a = b"
proof -
  have d: "distinct ''0123456789''" by simp
  have "length ''0123456789'' = 10" by simp
  with assms d show ?thesis
    unfolding digit_def by (metis nth_eq_iff_index_eq)
qed

lemma decimal_not_empty: "decimal n \<noteq> []"
  by (subst decimal.simps) simp

lemma decimal_inj: "decimal n = decimal m \<Longrightarrow> n = m"
proof (induction n arbitrary: m rule: decimal.induct)
  case (1 n)
  show ?case
  proof (cases "n < 10")
    case True
    then have n: "decimal n = [digit n]" by (subst decimal.simps) simp
    show ?thesis
    proof (cases "m < 10")
      case m: True
      then have "decimal m = [digit m]" by (subst decimal.simps) simp
      with n "1.prems" True m show ?thesis by (simp add: digit_inj)
    next
      case False
      then have "decimal m = decimal (m div 10) @ [digit (m mod 10)]"
        by (subst decimal.simps) simp
      with n "1.prems" decimal_not_empty [of "m div 10"] show ?thesis by simp
    qed
  next
    case False
    then have n: "decimal n = decimal (n div 10) @ [digit (n mod 10)]"
      by (subst decimal.simps) simp
    show ?thesis
    proof (cases "m < 10")
      case True
      then have "decimal m = [digit m]" by (subst decimal.simps) simp
      with n "1.prems" decimal_not_empty [of "n div 10"] show ?thesis by simp
    next
      case m: False
      then have "decimal m = decimal (m div 10) @ [digit (m mod 10)]"
        by (subst decimal.simps) simp
      with n "1.prems" have eq: "decimal (n div 10) = decimal (m div 10)"
        and dg: "digit (n mod 10) = digit (m mod 10)" by simp_all
      from "1.IH" [OF False eq] have "n div 10 = m div 10" .
      moreover from dg have "n mod 10 = m mod 10" by (simp add: digit_inj)
      ultimately show ?thesis by (metis div_mult_mod_eq)
    qed
  qed
qed

lemma find_snoc:
  "find P (xs @ [d]) = (case find P xs of None \<Rightarrow> (if P d then Some d else None) | Some x \<Rightarrow> Some x)"
  by (induction xs) auto

text \<open>
  What holds of \<^verbatim>\<open>create\<close>: when no document of the store has the identifier of the
  current millisecond, \<^verbatim>\<open>get\<close> of the new identifier returns the new document afterwards,
  with the content given and the stamps of the second and the third reading of the clock.
\<close>

lemma htmlDocumentStorage_create_then_get:
  assumes "htmlDocumentStorage_get w (Some (JStr (''doc-'' @ decimal (clock e (ticks w))))) = None"
  shows "htmlDocumentStorage_get (snd (htmlDocumentStorage_create e c w))
           (Some (JStr (''doc-'' @ decimal (clock e (ticks w)))))
         = Some \<lparr>id_doc = ''doc-'' @ decimal (clock e (ticks w)), content = c,
                  createdAt = clock e (ticks w + 1), updatedAt = clock e (ticks w + 2)\<rparr>"
  using assms
  by (simp add: htmlDocumentStorage_create_def htmlDocumentStorage_get_def Let_def find_snoc
      split: option.splits)

lemma map_id_update_first:
  assumes "id_doc doc' = id_doc doc" and "find (\<lambda>d. Some (JStr (id_doc d)) = i) docs = Some doc"
  shows "map id_doc (update_first i (\<lambda>d. doc') docs) = map id_doc docs"
  using assms by (induction docs) (auto split: if_splits)

text \<open>
  Under a clock every reading of which is later than the one before, the identifiers of
  the store stay pairwise distinct through every \<^verbatim>\<open>create\<close> and \<^verbatim>\<open>update\<close>, from the empty
  store on.
\<close>

lemma stamped_ids_invariant:
  "stamped_ids e initial_world
   \<and> (strict_mono (clock e) \<and> stamped_ids e w \<longrightarrow>
        stamped_ids e (snd (htmlDocumentStorage_create e c w))
        \<and> stamped_ids e (snd (htmlDocumentStorage_update e i c w)))"
proof (intro conjI impI)
  show "stamped_ids e initial_world"
    by (simp add: stamped_ids_def initial_world_def)
next
  assume a: "strict_mono (clock e) \<and> stamped_ids e w"
  then have mono: "clock e (ticks w) < clock e (ticks w + 3)"
    by (simp add: strict_mono_def)
  from a have d: "distinct (map id_doc (htmlDocuments w))"
    and b: "\<forall>doc \<in> set (htmlDocuments w). \<exists>t < clock e (ticks w). id_doc doc = ''doc-'' @ decimal t"
    by (simp_all add: stamped_ids_def)
  have fresh: "''doc-'' @ decimal (clock e (ticks w)) \<notin> id_doc ` set (htmlDocuments w)"
  proof
    assume "''doc-'' @ decimal (clock e (ticks w)) \<in> id_doc ` set (htmlDocuments w)"
    then obtain doc where "doc \<in> set (htmlDocuments w)"
      and "id_doc doc = ''doc-'' @ decimal (clock e (ticks w))" by auto
    with b obtain t where "t < clock e (ticks w)" and "decimal t = decimal (clock e (ticks w))"
      by fastforce
    then show False using decimal_inj by fastforce
  qed
  have bound: "\<forall>doc \<in> set (htmlDocuments w). \<exists>t < clock e (ticks w + 3). id_doc doc = ''doc-'' @ decimal t"
    using b mono by (meson less_trans)
  show "stamped_ids e (snd (htmlDocumentStorage_create e c w))"
    using d fresh bound mono
    by (auto simp: stamped_ids_def htmlDocumentStorage_create_def Let_def split: option.splits)
next
  assume a: "strict_mono (clock e) \<and> stamped_ids e w"
  then have mono: "clock e (ticks w) < clock e (ticks w + 1)"
    by (simp add: strict_mono_def)
  from a have d: "distinct (map id_doc (htmlDocuments w))"
    and b: "\<forall>doc \<in> set (htmlDocuments w). \<exists>t < clock e (ticks w). id_doc doc = ''doc-'' @ decimal t"
    by (simp_all add: stamped_ids_def)
  show "stamped_ids e (snd (htmlDocumentStorage_update e i c w))"
  proof (cases "htmlDocumentStorage_get w i")
    case None
    with a show ?thesis by (simp add: htmlDocumentStorage_update_def)
  next
    case (Some doc)
    let ?doc' = "doc\<lparr>content := c, updatedAt := clock e (ticks w)\<rparr>"
    let ?docs = "update_first i (\<lambda>d. ?doc') (htmlDocuments w)"
    from Some have f: "find (\<lambda>d. Some (JStr (id_doc d)) = i) (htmlDocuments w) = Some doc"
      by (simp add: htmlDocumentStorage_get_def)
    have ids: "map id_doc ?docs = map id_doc (htmlDocuments w)"
      by (rule map_id_update_first [OF _ f]) simp
    have "\<forall>d \<in> set ?docs. \<exists>t < clock e (ticks w + 1). id_doc d = ''doc-'' @ decimal t"
    proof
      fix d' assume "d' \<in> set ?docs"
      then have "id_doc d' \<in> set (map id_doc ?docs)" by simp
      then have "id_doc d' \<in> id_doc ` set (htmlDocuments w)" by (simp add: ids)
      then obtain d0 where "d0 \<in> set (htmlDocuments w)" and "id_doc d0 = id_doc d'" by auto
      with b obtain t where "t < clock e (ticks w)" and "id_doc d' = ''doc-'' @ decimal t"
        by fastforce
      with mono show "\<exists>t < clock e (ticks w + 1). id_doc d' = ''doc-'' @ decimal t"
        by (meson less_trans)
    qed
    with d ids Some show ?thesis
      by (simp add: stamped_ids_def htmlDocumentStorage_update_def Let_def split: option.splits)
  qed
qed

section \<open>Properties of the patch editor and of the edit tool\<close>







section \<open>Properties of the agent loop\<close>

lemma run_tool_calls_malformed:
  assumes "toolCall \<in> set toolCalls" and "json_parse e (function_arguments toolCall) = Inl m"
  shows "\<exists>err w'. run_tool_calls e toolCalls collected docId w = (Inl err, w')"
  using assms
proof (induction toolCalls arbitrary: collected docId w)
  case Nil
  then show ?case by simp
next
  case (Cons c rest)
  show ?case
  proof (cases "json_parse e (function_arguments c)")
    case (Inl m')
    then show ?thesis by simp
  next
    case (Inr args)
    with Cons.prems have member: "toolCall \<in> set rest" by auto
    obtain r w1 where run: "executeTool e (function_name c) args w = (r, w1)"
      by (cases "executeTool e (function_name c) args w")
    show ?thesis
    proof (cases r)
      case (Inl err)
      with Inr run show ?thesis by simp
    next
      case (Inr result)
      from Cons.IH [OF member Cons.prems(2)] \<open>json_parse e (function_arguments c) = Inr args\<close> run Inr
      show ?thesis by simp
    qed
  qed
qed

lemma init_conversation_returns:
  "\<exists>conversationMessages. init_conversation e msgs w = (Inr conversationMessages, w)"
  by (simp add: init_conversation_def executeTool_def read_business_profile_def)

text \<open>
  Claim C10. If one of the tool calls of an assistant turn has arguments that
  \<^verbatim>\<open>JSON.parse\<close> rejects, the loop over the calls raises and returns no tool result; when
  that call is the first of the turn, the error is the SyntaxError of \<^verbatim>\<open>JSON.parse\<close> and the
  state is untouched. So the round of the agent loop raises, and \<^verbatim>\<open>runAgent\<close> raises when
  the answer to its first model call has such a call.
\<close>

theorem malformed_tool_arguments_abort:
  assumes "toolCall \<in> set toolCalls" and "json_parse e (function_arguments toolCall) = Inl m"
  shows "(\<exists>err w'. run_tool_calls e toolCalls collected docId w = (Inl err, w'))
    \<and> (hd toolCalls = toolCall \<longrightarrow>
          run_tool_calls e toolCalls collected docId w = (Inl (SyntaxError m), w))
    \<and> (assistant_tool_calls st = toolCalls \<longrightarrow>
          (\<exists>err w'. agent_loop (Suc fuel) e st w = (Some (Inl err), w')))
    \<and> (init_conversation e msgs w = (Inr conversationMessages, w0) \<and>
        provider e (length (requests w0)) (agent_request conversationMessages) = Inr response \<and>
        message_tool_calls response = toolCalls \<longrightarrow>
          (\<exists>err w'. runAgent (Suc fuel) e msgs w = (Some (Inl err), w')))"
proof (intro conjI impI)
  show "\<exists>err w'. run_tool_calls e toolCalls collected docId w = (Inl err, w')"
    using assms by (rule run_tool_calls_malformed)
next
  assume "hd toolCalls = toolCall"
  with assms obtain rest where "toolCalls = toolCall # rest" by (cases toolCalls) auto
  with assms(2) show "run_tool_calls e toolCalls collected docId w = (Inl (SyntaxError m), w)"
    by simp
next
  assume st: "assistant_tool_calls st = toolCalls"
  from assms(1) have "toolCalls \<noteq> []" by auto
  moreover obtain err w' where "run_tool_calls e toolCalls [] (documentId st) w = (Inl err, w')"
    using run_tool_calls_malformed [OF assms] by blast
  ultimately show "\<exists>err w'. agent_loop (Suc fuel) e st w = (Some (Inl err), w')"
    using st by simp
next
  assume a: "init_conversation e msgs w = (Inr conversationMessages, w0) \<and>
        provider e (length (requests w0)) (agent_request conversationMessages) = Inr response \<and>
        message_tool_calls response = toolCalls"
  define w1 where "w1 = w0\<lparr>requests := requests w0 @ [agent_request conversationMessages]\<rparr>"
  define st0 where "st0 = receive response conversationMessages None initial_state"
  have toolCalls: "assistant_tool_calls st0 = toolCalls"
    using a by (simp add: st0_def receive_def trackCallCost_def Let_def split: option.splits)
  from assms(1) have "toolCalls \<noteq> []" by auto
  moreover obtain err w' where "run_tool_calls e toolCalls [] (documentId st0) w1 = (Inl err, w')"
    using run_tool_calls_malformed [OF assms] by blast
  ultimately have "agent_loop (Suc fuel) e st0 w1 = (Some (Inl err), w')"
    using toolCalls by simp
  then have "runAgent (Suc fuel) e msgs w = (Some (Inl err), w')"
    using a by (simp add: runAgent_def create_completion_def w1_def st0_def)
  then show "\<exists>err w'. runAgent (Suc fuel) e msgs w = (Some (Inl err), w')" by blast
qed


theorem malformed_tool_arguments_abort_witness:
  "runAgent 1 malformed_call_env [\<lparr>role = UserRole, content_msg = ''Create a page''\<rparr>] initial_world
     = (Some (Inl (SyntaxError ''Unexpected token'')),
        initial_world\<lparr>requests :=
          [agent_request
             [System systemInstruction, Assistant None [init_tool_call],
              Tool ''call_init_business_profile''
                (stringify malformed_call_env 2 (businessProfile malformed_call_env)),
              User ''Create a page'']]\<rparr>)"
proof -
  let ?conv = "[System systemInstruction, Assistant None [init_tool_call],
              Tool ''call_init_business_profile''
                (stringify malformed_call_env 2 (businessProfile malformed_call_env)),
              User ''Create a page'']"
  have member: "malformed_call \<in> set [malformed_call]" by simp
  have parse: "json_parse malformed_call_env (function_arguments malformed_call)
      = Inl ''Unexpected token''"
    by (simp add: malformed_call_env_def malformed_call_def sample_env_def)
  have init: "init_conversation malformed_call_env
      [\<lparr>role = UserRole, content_msg = ''Create a page''\<rparr>] initial_world
      = (Inr ?conv, initial_world)"
    by (simp add: init_conversation_def isNewConversation_def executeTool_def
        read_business_profile_def to_chat_message_def)
  have answer: "provider malformed_call_env (length (requests initial_world)) (agent_request ?conv)
      = Inr \<lparr>message_content = None, message_tool_calls = [malformed_call],
          response_usage = Some \<lparr>prompt_tokens = 1000, completion_tokens = 500\<rparr>\<rparr>"
    by (simp add: malformed_call_env_def malformed_call_provider_def sample_env_def)
  from malformed_tool_arguments_abort [OF member parse, of "[]" None
      "initial_world\<lparr>requests := [agent_request ?conv]\<rparr>"
      "receive \<lparr>message_content = None, message_tool_calls = [malformed_call],
          response_usage = Some \<lparr>prompt_tokens = 1000, completion_tokens = 500\<rparr>\<rparr>
        ?conv None initial_state" 0]
  have "agent_loop 1 malformed_call_env
      (receive \<lparr>message_content = None, message_tool_calls = [malformed_call],
          response_usage = Some \<lparr>prompt_tokens = 1000, completion_tokens = 500\<rparr>\<rparr>
        ?conv None initial_state)
      (initial_world\<lparr>requests := [agent_request ?conv]\<rparr>)
    = (Some (Inl (SyntaxError ''Unexpected token'')),
       initial_world\<lparr>requests := [agent_request ?conv]\<rparr>)"
    by (simp add: receive_def trackCallCost_def initial_state_def Let_def)
  with init answer show ?thesis
    by (simp add: runAgent_def create_completion_def initial_world_def)
qed

lemma isNewConversation_iff:
  "isNewConversation msgs \<longleftrightarrow> (\<exists>c. msgs = [\<lparr>role = UserRole, content_msg = c\<rparr>])"
proof
  assume "isNewConversation msgs"
  then obtain m where "msgs = [m]" and "role m = UserRole"
    by (cases msgs) (auto simp: isNewConversation_def)
  then have "msgs = [\<lparr>role = UserRole, content_msg = content_msg m\<rparr>]" by simp
  then show "\<exists>c. msgs = [\<lparr>role = UserRole, content_msg = c\<rparr>]" by blast
next
  assume "\<exists>c. msgs = [\<lparr>role = UserRole, content_msg = c\<rparr>]"
  then show "isNewConversation msgs" by (auto simp: isNewConversation_def)
qed

lemma editHtmlWithLLM_requests:
  "prefix (requests w) (requests (snd (editHtmlWithLLM e originalHtml instruction w)))"
  by (auto simp: editHtmlWithLLM_def create_completion_def Let_def
      split: sum.splits prod.splits validation.splits)

lemma htmlDocumentStorage_update_requests:
  "requests (snd (htmlDocumentStorage_update e i c w)) = requests w"
  by (simp add: htmlDocumentStorage_update_def Let_def split: option.splits)

lemma htmlDocumentStorage_create_requests:
  "requests (snd (htmlDocumentStorage_create e c w)) = requests w"
  by (simp add: htmlDocumentStorage_create_def Let_def split: option.splits)

lemma edit_html_document_try_requests:
  "prefix (requests w) (requests (snd (edit_html_document_try e args docId existingDoc w)))"
proof -
  obtain r w1 where run: "editHtmlWithLLM e (content existingDoc)
      (case get_property args ''editDescription'' of Inr v \<Rightarrow> v) w = (r, w1)"
    by (cases "editHtmlWithLLM e (content existingDoc)
      (case get_property args ''editDescription'' of Inr v \<Rightarrow> v) w")
  with editHtmlWithLLM_requests [of w e "content existingDoc"
      "case get_property args ''editDescription'' of Inr v \<Rightarrow> v"]
  have p: "prefix (requests w) (requests w1)" by simp
  show ?thesis
  proof (cases "get_property args ''editDescription''")
    case (Inl err)
    then show ?thesis by (simp add: edit_html_document_try_def)
  next
    case (Inr editDescription)
    with run have run': "editHtmlWithLLM e (content existingDoc) editDescription w = (r, w1)"
      by simp
    show ?thesis
    proof (cases r)
      case (Inl err)
      with Inr run' p show ?thesis by (simp add: edit_html_document_try_def)
    next
      case (Inr res)
      obtain updatedHtml patch where res: "res = (updatedHtml, patch)" by (cases res)
      obtain r2 w2 where upd: "htmlDocumentStorage_update e docId updatedHtml w1 = (r2, w2)"
        by (cases "htmlDocumentStorage_update e docId updatedHtml w1")
      with htmlDocumentStorage_update_requests [of e docId updatedHtml w1]
      have "requests w2 = requests w1" by simp
      with \<open>get_property args ''editDescription'' = Inr editDescription\<close> run' Inr res p upd
      show ?thesis
        by (auto simp: edit_html_document_try_def split: sum.splits prod.splits option.splits)
    qed
  qed
qed

lemma executeTool_requests:
  "prefix (requests w) (requests (snd (executeTool e toolName args w)))"
proof -
  have edit: "prefix (requests w) (requests (snd (edit_html_document e args w)))"
    using edit_html_document_try_requests [of w e args]
    by (auto simp: edit_html_document_def split: sum.splits prod.splits option.splits)
      (metis snd_conv)+
  have generate: "prefix (requests w) (requests (snd (generate_html_with_llm e args w)))"
    by (auto simp: generate_html_with_llm_def create_completion_def htmlDocumentStorage_create_def
        Let_def prefix_def split: sum.splits prod.splits option.splits)
  have others: "requests (snd (read_long_term_memory e args w)) = requests w"
    "requests (snd (write_long_term_memory e args w)) = requests w"
    "requests (snd (create_html_document e args w)) = requests w"
    by (auto simp: read_long_term_memory_def write_long_term_memory_def create_html_document_def
        memoryStorage_write_def htmlDocumentStorage_create_def Let_def
        split: sum.splits prod.splits option.splits)
  show ?thesis
    using edit generate others
    by (simp add: executeTool_def read_business_profile_def list_html_documents_def)
qed

lemma run_tool_calls_requests:
  "prefix (requests w) (requests (snd (run_tool_calls e toolCalls collected docId w)))"
proof (induction toolCalls arbitrary: collected docId w)
  case Nil
  then show ?case by simp
next
  case (Cons c rest)
  show ?case
  proof (cases "json_parse e (function_arguments c)")
    case (Inl m)
    then show ?thesis by simp
  next
    case (Inr args)
    obtain r w1 where run: "executeTool e (function_name c) args w = (r, w1)"
      by (cases "executeTool e (function_name c) args w")
    with executeTool_requests [of w e "function_name c" args]
    have p: "prefix (requests w) (requests w1)" by simp
    show ?thesis
    proof (cases r)
      case (Inl err)
      with \<open>json_parse e (function_arguments c) = Inr args\<close> run p show ?thesis by simp
    next
      case (Inr result)
      with \<open>json_parse e (function_arguments c) = Inr args\<close> run
      have "\<exists>collected' docId'. run_tool_calls e (c # rest) collected docId w
          = run_tool_calls e rest collected' docId' w1"
        by auto
      then obtain collected' docId' where "run_tool_calls e (c # rest) collected docId w
          = run_tool_calls e rest collected' docId' w1" by blast
      with Cons.IH [of w1 collected' docId'] p show ?thesis
        by (metis prefix_order.trans)
    qed
  qed
qed

lemma agent_loop_requests:
  "prefix (requests w) (requests (snd (agent_loop fuel e st w)))"
proof (induction fuel arbitrary: st w)
  case 0
  then show ?case by simp
next
  case (Suc fuel)
  show ?case
  proof (cases "assistant_tool_calls st = []")
    case True
    then show ?thesis by simp
  next
    case False
    obtain r w1 where run: "run_tool_calls e (assistant_tool_calls st) [] (documentId st) w = (r, w1)"
      by (cases "run_tool_calls e (assistant_tool_calls st) [] (documentId st) w")
    with run_tool_calls_requests [of w e "assistant_tool_calls st" "[]" "documentId st"]
    have p: "prefix (requests w) (requests w1)" by simp
    show ?thesis
    proof (cases r)
      case (Inl err)
      with False run p show ?thesis by simp
    next
      case (Inr res)
      obtain toolCallResults docId where res: "res = (toolCallResults, docId)" by (cases res)
      let ?req = "agent_request (messagesToSend st @ toolCallResults)"
      let ?w2 = "w1\<lparr>requests := requests w1 @ [?req]\<rparr>"
      have p2: "prefix (requests w) (requests ?w2)"
        using p by (auto simp: prefix_def)
      show ?thesis
      proof (cases "provider e (length (requests w1)) ?req")
        case (Inl err)
        with False run Inr res p2 show ?thesis by (simp add: create_completion_def)
      next
        case (Inr response)
        with False run \<open>r = Inr res\<close> res
        have "agent_loop (Suc fuel) e st w
            = agent_loop fuel e (receive response (messagesToSend st @ toolCallResults) docId st) ?w2"
          by (simp add: create_completion_def)
        with Suc.IH [of ?w2 "receive response (messagesToSend st @ toolCallResults) docId st"] p2
        show ?thesis by (metis prefix_order.trans)
      qed
    qed
  qed
qed

lemma runAgent_requests:
  assumes "init_conversation e msgs w = (Inr conversationMessages, w)"
  shows "\<exists>rest. requests (snd (runAgent fuel e msgs w))
           = requests w @ agent_request conversationMessages # rest"
proof -
  let ?req = "agent_request conversationMessages"
  let ?w1 = "w\<lparr>requests := requests w @ [?req]\<rparr>"
  show ?thesis
  proof (cases "provider e (length (requests w)) ?req")
    case (Inl err)
    with assms have "requests (snd (runAgent fuel e msgs w)) = requests w @ [?req]"
      by (simp add: runAgent_def create_completion_def)
    then show ?thesis by simp
  next
    case (Inr response)
    let ?st = "receive response conversationMessages None initial_state"
    have "snd (runAgent fuel e msgs w) = snd (agent_loop fuel e ?st ?w1)"
      using assms Inr
      by (simp add: runAgent_def create_completion_def split: prod.splits option.splits sum.splits)
    moreover have "prefix (requests ?w1) (requests (snd (agent_loop fuel e ?st ?w1)))"
      by (rule agent_loop_requests)
    ultimately show ?thesis by (auto simp: prefix_def)
  qed
qed

text \<open>
  Claim C7. Whatever the provider answers and however long the run goes on, the first
  request \<^verbatim>\<open>runAgent\<close> sends goes to the model \<^verbatim>\<open>gpt-4o-mini\<close> with the tool catalogue, and its
  transcript is, for an incoming transcript of exactly one user message: the system
  message, the synthesized assistant turn with the one tool call
  \<^verbatim>\<open>call_init_business_profile\<close> of \<^verbatim>\<open>read_business_profile\<close> with the arguments \<^verbatim>\<open>{}\<close>, the
  tool result with the same call identifier (the profile as JSON text with indent 2), then
  the user message, in this order and nothing else. For a transcript of any other shape it
  is the system message and the incoming messages in their order, each with its role and
  content, with no turn injected.
\<close>

theorem runAgent_first_transcript:
  "(msgs = [\<lparr>role = UserRole, content_msg = c\<rparr>] \<longrightarrow>
      (\<exists>req rest.
         requests (snd (runAgent fuel e msgs w)) = requests w @ req # rest \<and>
         model req = ''gpt-4o-mini'' \<and> with_tools req \<and>
         messages req =
           [System systemInstruction,
            Assistant None
              [\<lparr>tool_call_id = ''call_init_business_profile'',
                function_name = ''read_business_profile'',
                function_arguments = ''{}''\<rparr>],
            Tool ''call_init_business_profile'' (stringify e 2 (businessProfile e)),
            User c]))
   \<and> ((\<forall>c'. msgs \<noteq> [\<lparr>role = UserRole, content_msg = c'\<rparr>]) \<longrightarrow>
      (\<exists>req rest.
         requests (snd (runAgent fuel e msgs w)) = requests w @ req # rest \<and>
         model req = ''gpt-4o-mini'' \<and> with_tools req \<and>
         messages req =
           System systemInstruction #
           map (\<lambda>m. case role m of
                       UserRole \<Rightarrow> User (content_msg m)
                     | AssistantRole \<Rightarrow> Assistant (Some (content_msg m)) []) msgs))"
proof (intro conjI impI)
  let ?conv = "[System systemInstruction,
            Assistant None
              [\<lparr>tool_call_id = ''call_init_business_profile'',
                function_name = ''read_business_profile'',
                function_arguments = ''{}''\<rparr>],
            Tool ''call_init_business_profile'' (stringify e 2 (businessProfile e)),
            User c]"
  assume single: "msgs = [\<lparr>role = UserRole, content_msg = c\<rparr>]"
  then have "init_conversation e msgs w = (Inr ?conv, w)"
    by (simp add: init_conversation_def isNewConversation_def executeTool_def
        read_business_profile_def to_chat_message_def init_tool_call_def)
  then obtain rest where
    "requests (snd (runAgent fuel e msgs w)) = requests w @ agent_request ?conv # rest"
    using runAgent_requests by blast
  moreover have "model (agent_request ?conv) = ''gpt-4o-mini''"
    and "with_tools (agent_request ?conv)" and "messages (agent_request ?conv) = ?conv"
    by (simp_all add: agent_request_def MODEL_NAME_def)
  ultimately show "\<exists>req rest.
         requests (snd (runAgent fuel e msgs w)) = requests w @ req # rest \<and>
         model req = ''gpt-4o-mini'' \<and> with_tools req \<and> messages req = ?conv"
    by blast
next
  let ?conv = "System systemInstruction #
           map (\<lambda>m. case role m of
                       UserRole \<Rightarrow> User (content_msg m)
                     | AssistantRole \<Rightarrow> Assistant (Some (content_msg m)) []) msgs"
  assume "\<forall>c'. msgs \<noteq> [\<lparr>role = UserRole, content_msg = c'\<rparr>]"
  then have "\<not> isNewConversation msgs" by (simp add: isNewConversation_iff)
  then have "init_conversation e msgs w = (Inr ?conv, w)"
    by (simp add: init_conversation_def to_chat_message_def)
  then obtain rest where
    "requests (snd (runAgent fuel e msgs w)) = requests w @ agent_request ?conv # rest"
    using runAgent_requests by blast
  moreover have "model (agent_request ?conv) = ''gpt-4o-mini''"
    and "with_tools (agent_request ?conv)" and "messages (agent_request ?conv) = ?conv"
    by (simp_all add: agent_request_def MODEL_NAME_def)
  ultimately show "\<exists>req rest.
         requests (snd (runAgent fuel e msgs w)) = requests w @ req # rest \<and>
         model req = ''gpt-4o-mini'' \<and> with_tools req \<and> messages req = ?conv"
    by blast
qed

theorem runAgent_first_transcript_witness:
  "requests (snd (runAgent 0 answering_env
       [\<lparr>role = UserRole, content_msg = ''What is the business profile?''\<rparr>] initial_world))
     = [\<lparr>model = ''gpt-4o-mini'',
         messages =
           [System
              (''You are a helpful business assistant that works with TechCorp Solutions.\<newline>'' @
               ''\<newline>'' @
               ''You should:\<newline>'' @
               ''1. Always read the business profile when starting a conversation\<newline>'' @
               ''2. Use long-term memory to remember important information across conversations\<newline>'' @
               ''3. Help create and edit HTML documents as needed\<newline>'' @
               ''4. Be conversational and helpful\<newline>'' @
               ''\<newline>'' @
               ''The business profile contains information about TechCorp Solutions. Use it to answer questions about the company.''),
            Assistant None
              [\<lparr>tool_call_id = ''call_init_business_profile'',
                function_name = ''read_business_profile'',
                function_arguments = ''{}''\<rparr>],
            Tool ''call_init_business_profile''
              (stringify answering_env 2 (businessProfile answering_env)),
            User ''What is the business profile?''],
         with_tools = True, temperature = None, max_tokens = 4096\<rparr>]
   \<and> requests (snd (runAgent 0 answering_env
       [\<lparr>role = UserRole, content_msg = ''Hello''\<rparr>,
        \<lparr>role = AssistantRole, content_msg = ''Hi''\<rparr>,
        \<lparr>role = UserRole, content_msg = ''What is the business profile?''\<rparr>] initial_world))
     = [\<lparr>model = ''gpt-4o-mini'',
         messages =
           [System
              (''You are a helpful business assistant that works with TechCorp Solutions.\<newline>'' @
               ''\<newline>'' @
               ''You should:\<newline>'' @
               ''1. Always read the business profile when starting a conversation\<newline>'' @
               ''2. Use long-term memory to remember important information across conversations\<newline>'' @
               ''3. Help create and edit HTML documents as needed\<newline>'' @
               ''4. Be conversational and helpful\<newline>'' @
               ''\<newline>'' @
               ''The business profile contains information about TechCorp Solutions. Use it to answer questions about the company.''),
            User ''Hello'', Assistant (Some ''Hi'') [], User ''What is the business profile?''],
         with_tools = True, temperature = None, max_tokens = 4096\<rparr>]"
proof -
  have run: "requests (snd (runAgent 0 answering_env msgs initial_world))
      = [agent_request conv]"
    if "init_conversation answering_env msgs initial_world = (Inr conv, initial_world)"
    for msgs conv
    using that
    by (simp add: runAgent_def create_completion_def answering_env_def answering_provider_def
        sample_env_def initial_world_def receive_def trackCallCost_def initial_state_def)
  have one: "init_conversation answering_env
       [\<lparr>role = UserRole, content_msg = ''What is the business profile?''\<rparr>] initial_world
     = (Inr [System systemInstruction, Assistant None [init_tool_call],
           Tool ''call_init_business_profile''
             (stringify answering_env 2 (businessProfile answering_env)),
           User ''What is the business profile?''], initial_world)"
    by (simp add: init_conversation_def isNewConversation_def executeTool_def
        read_business_profile_def to_chat_message_def)
  have three: "init_conversation answering_env
       [\<lparr>role = UserRole, content_msg = ''Hello''\<rparr>,
        \<lparr>role = AssistantRole, content_msg = ''Hi''\<rparr>,
        \<lparr>role = UserRole, content_msg = ''What is the business profile?''\<rparr>] initial_world
     = (Inr [System systemInstruction, User ''Hello'', Assistant (Some ''Hi'') [],
           User ''What is the business profile?''], initial_world)"
    by (simp add: init_conversation_def isNewConversation_def to_chat_message_def)
  from runAgent_first_transcript [of
      "[\<lparr>role = UserRole, content_msg = ''What is the business profile?''\<rparr>]"
      "''What is the business profile?''" 0 answering_env initial_world]
    runAgent_first_transcript [of
      "[\<lparr>role = UserRole, content_msg = ''Hello''\<rparr>,
        \<lparr>role = AssistantRole, content_msg = ''Hi''\<rparr>,
        \<lparr>role = UserRole, content_msg = ''What is the business profile?''\<rparr>]"
      "''x''" 0 answering_env initial_world]
    run [OF one] run [OF three]
  show ?thesis
    by (simp add: agent_request_def MODEL_NAME_def init_tool_call_def systemInstruction_def)
qed

section \<open>Properties of the cost ledger\<close>

lemma bits_bounds: "n < 2 ^ bits n" "0 < n \<Longrightarrow> 2 ^ bits n \<le> 2 * n"
proof (induction n rule: bits.induct)
  case (1 n)
  {
    case 1
    show ?case
    proof (cases "n = 0")
      case True
      then show ?thesis by (simp add: bits.simps)
    next
      case False
      with "1.IH"(1) have "n div 2 < 2 ^ bits (n div 2)" by simp
      moreover have "bits n = Suc (bits (n div 2))" using False by (subst bits.simps) simp
      ultimately show ?thesis by simp
    qed
  next
    case 2
    then have n: "bits n = Suc (bits (n div 2))" by (subst bits.simps) simp
    show ?case
    proof (cases "n div 2 = 0")
      case True
      with 2 have "n = 1" by presburger
      then show ?thesis by (simp add: bits.simps)
    next
      case False
      with "1.IH"(2) 2 have "2 ^ bits (n div 2) \<le> 2 * (n div 2)" by simp
      with n show ?thesis by simp
    qed
  }
qed

lemma round_half_even_nat:
  assumes "0 < d"
  shows "2 * n \<le> 2 * d * round_half_even n d + d" "2 * d * round_half_even n d \<le> 2 * n + d"
proof -
  have n: "n = d * (n div d) + n mod d" by simp
  have r: "n mod d < d" using assms by simp
  define q where "q = n div d"
  define r where "r = n mod d"
  have n': "n = d * q + r" and r': "r < d" using n r by (simp_all add: q_def r_def)
  have "round_half_even n d = q \<and> 2 * r \<le> d \<or> round_half_even n d = q + 1 \<and> d \<le> 2 * r"
    by (auto simp: round_half_even_def q_def r_def)
  then obtain m where m: "round_half_even n d = m" and c: "m = q \<and> 2 * r \<le> d \<or> m = q + 1 \<and> d \<le> 2 * r"
    by blast
  have "2 * (d * q + r) \<le> 2 * d * m + d"
    using c r' by (auto simp: algebra_simps)
  then show "2 * n \<le> 2 * d * round_half_even n d + d" using n' m by simp
  have "2 * d * m \<le> 2 * (d * q + r) + d"
    using c r' by (auto simp: algebra_simps)
  then show "2 * d * round_half_even n d \<le> 2 * n + d" using n' m by simp
qed

lemma round_half_even_rat:
  assumes "0 < d"
  shows "\<bar>of_nat (round_half_even n d) - (of_nat n / of_nat d :: rat)\<bar> \<le> 1 / 2"
proof -
  let ?m = "round_half_even n d"
  have d: "(0::rat) < of_nat d" using assms by simp
  have "(of_nat (2 * n) :: rat) \<le> of_nat (2 * d * ?m + d)"
    using round_half_even_nat(1) [OF assms, of n] by (simp only: of_nat_le_iff)
  then have 1: "2 * (of_nat n :: rat) \<le> 2 * of_nat d * of_nat ?m + of_nat d" by simp
  have "(of_nat (2 * d * ?m) :: rat) \<le> of_nat (2 * n + d)"
    using round_half_even_nat(2) [OF assms, of n] by (simp only: of_nat_le_iff)
  then have 2: "2 * of_nat d * (of_nat ?m :: rat) \<le> 2 * of_nat n + of_nat d" by simp
  from 1 d have "(of_nat n / of_nat d :: rat) - of_nat ?m \<le> 1 / 2" by (simp add: field_simps)
  moreover from 2 d have "of_nat ?m - (of_nat n / of_nat d :: rat) \<le> 1 / 2" by (simp add: field_simps)
  ultimately show ?thesis by linarith
qed

lemma round_half_even_rel:
  assumes "0 < B" and "2 ^ 52 * B \<le> A"
  shows "\<bar>of_nat (round_half_even A B) - (of_nat A / of_nat B :: rat)\<bar> \<le> of_nat A / of_nat B * unit_roundoff"
proof -
  have B: "(0::rat) < of_nat B" using assms by simp
  have "(of_nat (2 ^ 52 * B) :: rat) \<le> of_nat A" using assms(2) by (simp only: of_nat_le_iff)
  then have "(2 ^ 52 :: rat) * of_nat B \<le> of_nat A" by simp
  then have "(2 ^ 52 :: rat) \<le> of_nat A / of_nat B" using B by (simp add: field_simps)
  then have "(1 / 2 :: rat) \<le> of_nat A / of_nat B * unit_roundoff" by (simp add: unit_roundoff_def)
  with round_half_even_rat [OF assms(1), of A] show ?thesis by linarith
qed


lemma nearest_double_pos: "0 < snd (nearest_double a b)"
  by (simp add: nearest_double_def Let_def)

lemma scale_bound:
  assumes "0 < a"
  shows "2 ^ 52 * (b * (if bits a < bits b + 53 then 1 else 2 ^ (bits a - (bits b + 53))))
         \<le> a * (if bits a < bits b + 53 then 2 ^ (bits b + 53 - bits a) else 1)"
proof (cases "bits a < bits b + 53")
  case True
  have "(2::nat) ^ bits a * 2 ^ (bits b + 53 - bits a) = 2 ^ (bits a + (bits b + 53 - bits a))"
    by (simp only: power_add)
  also have "\<dots> = 2 ^ (bits b + 53)" using True by simp
  also have "\<dots> = 2 ^ 53 * 2 ^ bits b" by (simp add: power_add)
  finally have eq: "(2::nat) ^ bits a * 2 ^ (bits b + 53 - bits a) = 2 ^ 53 * 2 ^ bits b" .
  have "2 ^ bits a * (2::nat) ^ (bits b + 53 - bits a) \<le> 2 * a * 2 ^ (bits b + 53 - bits a)"
    using bits_bounds(2) [OF assms] by (rule mult_right_mono) simp
  moreover have "(2::nat) ^ 53 * b < 2 ^ 53 * 2 ^ bits b"
    using bits_bounds(1) [of b] by simp
  ultimately have "(2::nat) ^ 53 * b < 2 * a * 2 ^ (bits b + 53 - bits a)"
    using eq by linarith
  then show ?thesis using True by simp
next
  case False
  have "(2::nat) ^ 53 * (2 ^ bits b * 2 ^ (bits a - (bits b + 53))) = 2 ^ (53 + (bits b + (bits a - (bits b + 53))))"
    by (simp only: power_add)
  also have "\<dots> = 2 ^ bits a" using False by simp
  finally have eq: "(2::nat) ^ 53 * (2 ^ bits b * 2 ^ (bits a - (bits b + 53))) = 2 ^ bits a" .
  have "b * (2::nat) ^ (bits a - (bits b + 53)) \<le> 2 ^ bits b * 2 ^ (bits a - (bits b + 53))"
    using bits_bounds(1) [of b] by (intro mult_right_mono) simp_all
  then have "(2::nat) ^ 53 * (b * 2 ^ (bits a - (bits b + 53))) \<le> 2 ^ bits a"
    using eq by (metis mult_le_mono2)
  with bits_bounds(2) [OF assms] have "(2::nat) ^ 53 * (b * 2 ^ (bits a - (bits b + 53))) \<le> 2 * a"
    by linarith
  then show ?thesis using False by simp
qed

lemma scale_close:
  fixes m R s :: rat
  assumes "\<bar>m - R\<bar> \<le> R * unit_roundoff" and "0 \<le> s"
  shows "R * s * (1 - unit_roundoff) \<le> m * s \<and> m * s \<le> R * s * (1 + unit_roundoff)"
proof -
  from assms(1) have "R * (1 - unit_roundoff) \<le> m" and "m \<le> R * (1 + unit_roundoff)"
    by (simp_all add: abs_le_iff algebra_simps)
  then have "R * (1 - unit_roundoff) * s \<le> m * s" and "m * s \<le> R * (1 + unit_roundoff) * s"
    using assms(2) by (simp_all add: mult_right_mono)
  then show ?thesis by (simp add: algebra_simps)
qed

lemma nearest_double_close:
  assumes "0 < b"
  shows "close_to 1 (dval (nearest_double a b)) (of_nat a / of_nat b)"
proof (cases "a = 0")
  case True
  then show ?thesis by (simp add: nearest_double_def close_to_def dval_def)
next
  case False
  define up :: nat where "up = (if bits a < bits b + 53 then 2 ^ (bits b + 53 - bits a) else 1)"
  define dn :: nat where "dn = (if bits a < bits b + 53 then 1 else 2 ^ (bits a - (bits b + 53)))"
  have up: "0 < up" and dn: "0 < dn" by (simp_all add: up_def dn_def)
  from False have bound: "2 ^ 52 * (b * dn) \<le> a * up"
    unfolding up_def dn_def by (intro scale_bound) simp
  have B: "0 < b * dn" using assms dn by simp
  show ?thesis
  proof (cases "a * up < b * dn * 2 ^ 53")
    case True
    then have nd: "nearest_double a b = (round_half_even (a * up) (b * dn) * dn, up)"
      using False by (simp add: nearest_double_def Let_def up_def dn_def)
    have "\<bar>of_nat (round_half_even (a * up) (b * dn)) - (of_nat (a * up) / of_nat (b * dn) :: rat)\<bar>
        \<le> of_nat (a * up) / of_nat (b * dn) * unit_roundoff"
      using B bound by (rule round_half_even_rel)
    from scale_close [OF this, of "of_nat dn / of_nat up"]
    have ineq: "of_nat (a * up) / of_nat (b * dn) * (of_nat dn / of_nat up) * (1 - unit_roundoff)
          \<le> of_nat (round_half_even (a * up) (b * dn)) * (of_nat dn / of_nat up)
        \<and> of_nat (round_half_even (a * up) (b * dn)) * (of_nat dn / of_nat up)
          \<le> of_nat (a * up) / of_nat (b * dn) * (of_nat dn / of_nat up) * (1 + unit_roundoff)"
      by simp
    have eq1: "(of_nat (a * up) / of_nat (b * dn) * (of_nat dn / of_nat up) :: rat) = of_nat a / of_nat b"
      using up dn assms by (simp add: field_simps)
    have eq2: "(of_nat (round_half_even (a * up) (b * dn)) * (of_nat dn / of_nat up) :: rat)
        = dval (nearest_double a b)"
      by (simp add: nd dval_def)
    from ineq show ?thesis unfolding close_to_def power_one_right eq1 eq2 .
  next
    case large: False
    then have nd: "nearest_double a b = (round_half_even (a * up) (2 * (b * dn)) * (2 * dn), up)"
      using False by (simp add: nearest_double_def Let_def up_def dn_def)
    have B2: "0 < 2 * (b * dn)" using B by simp
    have bound2: "2 ^ 52 * (2 * (b * dn)) \<le> a * up" using large by simp
    have "\<bar>of_nat (round_half_even (a * up) (2 * (b * dn))) - (of_nat (a * up) / of_nat (2 * (b * dn)) :: rat)\<bar>
        \<le> of_nat (a * up) / of_nat (2 * (b * dn)) * unit_roundoff"
      using B2 bound2 by (rule round_half_even_rel)
    from scale_close [OF this, of "of_nat (2 * dn) / of_nat up"]
    have ineq: "of_nat (a * up) / of_nat (2 * (b * dn)) * (of_nat (2 * dn) / of_nat up) * (1 - unit_roundoff)
          \<le> of_nat (round_half_even (a * up) (2 * (b * dn))) * (of_nat (2 * dn) / of_nat up)
        \<and> of_nat (round_half_even (a * up) (2 * (b * dn))) * (of_nat (2 * dn) / of_nat up)
          \<le> of_nat (a * up) / of_nat (2 * (b * dn)) * (of_nat (2 * dn) / of_nat up) * (1 + unit_roundoff)"
      by simp
    have eq1: "(of_nat (a * up) / of_nat (2 * (b * dn)) * (of_nat (2 * dn) / of_nat up) :: rat)
        = of_nat a / of_nat b"
      using up dn assms by (simp add: field_simps)
    have eq2: "(of_nat (round_half_even (a * up) (2 * (b * dn))) * (of_nat (2 * dn) / of_nat up) :: rat)
        = dval (nearest_double a b)"
      by (simp add: nd dval_def)
    from ineq show ?thesis unfolding close_to_def power_one_right eq1 eq2 .
  qed
qed

lemma roundoff_bounds:
  "0 \<le> unit_roundoff" "0 \<le> 1 - unit_roundoff" "1 - unit_roundoff \<le> 1"
  "1 \<le> 1 + unit_roundoff" "0 \<le> 1 + unit_roundoff"
  by (simp_all add: unit_roundoff_def)

lemma close_to_round:
  assumes "0 < b" and "close_to j (of_nat a / of_nat b) X" and "0 \<le> X"
  shows "close_to (Suc j) (dval (nearest_double a b)) X"
proof -
  let ?x = "of_nat a / of_nat b :: rat"
  let ?d = "dval (nearest_double a b)"
  from nearest_double_close [OF assms(1), of a]
  have d: "?x * (1 - unit_roundoff) \<le> ?d" "?d \<le> ?x * (1 + unit_roundoff)" by (simp_all add: close_to_def)
  from assms(2) have x: "X * (1 - unit_roundoff) ^ j \<le> ?x" "?x \<le> X * (1 + unit_roundoff) ^ j" by (simp_all add: close_to_def)
  have "X * (1 - unit_roundoff) ^ j * (1 - unit_roundoff) \<le> ?x * (1 - unit_roundoff)"
    using x(1) roundoff_bounds(2) by (rule mult_right_mono)
  with d(1) have lower: "X * (1 - unit_roundoff) ^ Suc j \<le> ?d" by (simp add: algebra_simps)
  have "?x * (1 + unit_roundoff) \<le> X * (1 + unit_roundoff) ^ j * (1 + unit_roundoff)"
    using x(2) roundoff_bounds(5) by (rule mult_right_mono)
  with d(2) have upper: "?d \<le> X * (1 + unit_roundoff) ^ Suc j" by (simp add: algebra_simps)
  from lower upper show ?thesis by (simp only: close_to_def)
qed

lemma close_to_mult:
  assumes "close_to j x X" and "close_to k y Y" and "0 \<le> X" and "0 \<le> Y"
  shows "close_to (j + k) (x * y) (X * Y)"
proof -
  from assms(1) have x: "X * (1 - unit_roundoff) ^ j \<le> x" "x \<le> X * (1 + unit_roundoff) ^ j" by (simp_all add: close_to_def)
  from assms(2) have y: "Y * (1 - unit_roundoff) ^ k \<le> y" "y \<le> Y * (1 + unit_roundoff) ^ k" by (simp_all add: close_to_def)
  have lx: "0 \<le> X * (1 - unit_roundoff) ^ j" and ly: "0 \<le> Y * (1 - unit_roundoff) ^ k"
    using assms(3,4) roundoff_bounds(2) by simp_all
  with x y have x0: "0 \<le> x" and y0: "0 \<le> y" by linarith+
  have "X * (1 - unit_roundoff) ^ j * (Y * (1 - unit_roundoff) ^ k) \<le> x * y"
    using x(1) y(1) lx ly x0 by (intro mult_mono) simp_all
  moreover have "x * y \<le> X * (1 + unit_roundoff) ^ j * (Y * (1 + unit_roundoff) ^ k)"
    using x(2) y(2) x0 y0 assms(3) roundoff_bounds(5) by (intro mult_mono) simp_all
  ultimately show ?thesis by (simp add: close_to_def power_add algebra_simps)
qed

lemma close_to_add:
  assumes "close_to j x X" and "close_to j y Y"
  shows "close_to j (x + y) (X + Y)"
  using assms by (simp add: close_to_def algebra_simps add_mono)

lemma close_to_mono:
  assumes "close_to j x X" and "j \<le> k" and "0 \<le> X"
  shows "close_to k x X"
proof -
  have "(1 - unit_roundoff) ^ k \<le> (1 - unit_roundoff) ^ j"
    using assms(2) roundoff_bounds(2,3) by (rule power_decreasing)
  then have "X * (1 - unit_roundoff) ^ k \<le> X * (1 - unit_roundoff) ^ j" using assms(3) by (rule mult_left_mono)
  moreover have "(1 + unit_roundoff) ^ j \<le> (1 + unit_roundoff) ^ k"
    using assms(2) roundoff_bounds(4) by (simp add: power_increasing)
  then have "X * (1 + unit_roundoff) ^ j \<le> X * (1 + unit_roundoff) ^ k" using assms(3) by (rule mult_left_mono)
  ultimately show ?thesis using assms(1) by (simp add: close_to_def)
qed

lemma fmul_close:
  assumes "close_to j (dval x) X" and "close_to k (dval y) Y" and "0 \<le> X" and "0 \<le> Y"
    and "0 < snd x" and "0 < snd y"
  shows "close_to (Suc (j + k)) (dval (fmul x y)) (X * Y)"
proof -
  have "(of_nat (fst x * fst y) / of_nat (snd x * snd y) :: rat) = dval x * dval y"
    by (simp add: dval_def)
  with close_to_mult [OF assms(1-4)]
  have "close_to (j + k) (of_nat (fst x * fst y) / of_nat (snd x * snd y)) (X * Y)" by simp
  then show ?thesis
    unfolding fmul_def using assms(3-6) by (intro close_to_round) simp_all
qed

lemma fadd_close:
  assumes "close_to j (dval x) X" and "close_to j (dval y) Y" and "0 \<le> X" and "0 \<le> Y"
    and "0 < snd x" and "0 < snd y"
  shows "close_to (Suc j) (dval (fadd x y)) (X + Y)"
proof -
  have "(of_nat (fst x * snd y + fst y * snd x) / of_nat (snd x * snd y) :: rat) = dval x + dval y"
    using assms(5,6) by (simp add: dval_def field_simps)
  with close_to_add [OF assms(1,2)]
  have "close_to j (of_nat (fst x * snd y + fst y * snd x) / of_nat (snd x * snd y)) (X + Y)" by simp
  then show ?thesis
    unfolding fadd_def using assms(3-6) by (intro close_to_round) simp_all
qed

lemma fmul_pos: "0 < snd (fmul x y)"
  by (simp add: fmul_def nearest_double_pos)

lemma fadd_pos: "0 < snd (fadd x y)"
  by (simp add: fadd_def nearest_double_pos)

lemma fdiv_pos: "0 < snd (fdiv x y)"
  by (simp add: fdiv_def nearest_double_pos)



lemma pow_lower:
  fixes x :: rat
  assumes "0 \<le> x" and "x \<le> 1"
  shows "1 - of_nat n * x \<le> (1 - x) ^ n"
proof (induction n)
  case 0
  show ?case by simp
next
  case (Suc n)
  have nonneg: "0 \<le> (1 - x) ^ n" using assms by simp
  show ?case
  proof (cases "0 \<le> 1 - of_nat n * x")
    case True
    have "(1 - x) * (1 - of_nat n * x) \<le> (1 - x) * (1 - x) ^ n"
      using Suc assms by (intro mult_left_mono) simp_all
    moreover have "1 - of_nat (Suc n) * x \<le> (1 - x) * (1 - of_nat n * x)"
    proof -
      have "0 \<le> of_nat n * x * x" using assms by simp
      then show ?thesis by (simp add: algebra_simps)
    qed
    ultimately show ?thesis by simp
  next
    case False
    then have "1 - of_nat (Suc n) * x \<le> 0" using assms by (simp add: algebra_simps)
    moreover have "0 \<le> (1 - x) ^ Suc n" using assms by simp
    ultimately show ?thesis by linarith
  qed
qed

lemma pow_upper:
  fixes x :: rat
  assumes "0 \<le> x"
  shows "2 * of_nat n * x \<le> 1 \<Longrightarrow> (1 + x) ^ n \<le> 1 + 2 * of_nat n * x"
proof (induction n)
  case 0
  show ?case by simp
next
  case (Suc n)
  have "2 * of_nat n * x \<le> 2 * of_nat (Suc n) * x" using assms by (simp add: algebra_simps)
  with Suc.prems have small: "2 * of_nat n * x \<le> 1" by linarith
  then have ih: "(1 + x) ^ n \<le> 1 + 2 * of_nat n * x" by (rule Suc.IH)
  have "(1 + x) * (1 + x) ^ n \<le> (1 + x) * (1 + 2 * of_nat n * x)"
    using ih assms by (intro mult_left_mono) simp_all
  moreover have "(1 + x) * (1 + 2 * of_nat n * x) \<le> 1 + 2 * of_nat (Suc n) * x"
  proof -
    have "(2 * of_nat n * x) * x \<le> 1 * x" using small assms by (rule mult_right_mono)
    then show ?thesis by (simp add: algebra_simps)
  qed
  ultimately show ?case by simp
qed

lemma toFixed6_eq:
  assumes "0 < snd x" and "of_nat q \<le> dval x * 10 ^ 6 + 1 / 2"
    and "dval x * 10 ^ 6 + 1 / 2 < of_nat q + 1"
  shows "toFixed6 x = q"
proof -
  have s: "(0::rat) < of_nat (snd x)" using assms(1) by simp
  from assms(2) s have "(of_nat q :: rat) * (2 * of_nat (snd x)) \<le> 2 * of_nat (fst x) * 10 ^ 6 + of_nat (snd x)"
    by (simp add: dval_def field_simps)
  then have "(of_nat (2 * snd x * q) :: rat) \<le> of_nat (2 * fst x * 10 ^ 6 + snd x)"
    by (simp add: algebra_simps)
  then have 1: "2 * snd x * q \<le> 2 * fst x * 10 ^ 6 + snd x" by (simp only: of_nat_le_iff)
  from assms(3) s have "2 * of_nat (fst x) * 10 ^ 6 + of_nat (snd x) < ((of_nat q :: rat) + 1) * (2 * of_nat (snd x))"
    by (simp add: dval_def field_simps)
  then have "(of_nat (2 * fst x * 10 ^ 6 + snd x) :: rat) < of_nat (2 * snd x * Suc q)"
    by (simp add: algebra_simps)
  then have 2: "2 * fst x * 10 ^ 6 + snd x < 2 * snd x * Suc q" by (simp only: of_nat_less_iff)
  from 1 2 show ?thesis unfolding toFixed6_def by (rule div_nat_eqI)
qed


lemma close_to_toFixed6:
  assumes "close_to j (dval x) (of_nat K / 10 ^ 6)" and "0 < snd x" and "4 * j * K < 2 ^ 53"
  shows "toFixed6 x = K"
proof (cases "K = 0")
  case True
  with assms(1) have "dval x = 0" by (simp add: close_to_def)
  with True assms(2) show ?thesis by (intro toFixed6_eq) simp_all
next
  case False
  define t :: rat where "t = of_nat j * unit_roundoff"
  define k :: rat where "k = of_nat K"
  have k1: "1 \<le> k" using False by (simp add: k_def)
  have "(of_nat (4 * j * K) :: rat) < of_nat (2 ^ 53)" using assms(3) by (simp only: of_nat_less_iff)
  then have "4 * (of_nat j * k) < (2 ^ 53 :: rat)" by (simp add: k_def)
  then have kt: "k * t < 1 / 4" by (simp add: t_def unit_roundoff_def field_simps)
  have t0: "0 \<le> t" by (simp add: t_def unit_roundoff_def)
  have "t * 1 \<le> t * k" using k1 t0 by (rule mult_left_mono)
  with kt have t4: "t < 1 / 4" by (simp add: mult.commute)
  have lower: "1 - t \<le> (1 - unit_roundoff) ^ j"
    unfolding t_def using roundoff_bounds(1) by (rule pow_lower) (simp add: unit_roundoff_def)
  have upper: "(1 + unit_roundoff) ^ j \<le> 1 + 2 * t"
  proof -
    have "2 * of_nat j * unit_roundoff \<le> 1" using t4 by (simp add: t_def)
    from pow_upper [OF roundoff_bounds(1) this] show ?thesis by (simp add: t_def)
  qed
  from assms(1) have d: "k / 10 ^ 6 * (1 - unit_roundoff) ^ j \<le> dval x" "dval x \<le> k / 10 ^ 6 * (1 + unit_roundoff) ^ j"
    by (simp_all add: close_to_def k_def)
  have k0: "0 \<le> k / 10 ^ 6" using k1 by simp
  have "k / 10 ^ 6 * (1 - t) \<le> k / 10 ^ 6 * (1 - unit_roundoff) ^ j" using lower k0 by (rule mult_left_mono)
  with d(1) have "k / 10 ^ 6 * (1 - t) \<le> dval x" by linarith
  then have "k - k * t \<le> dval x * 10 ^ 6" by (simp add: field_simps)
  with kt have 1: "of_nat K \<le> dval x * 10 ^ 6 + 1 / 2" by (simp add: k_def)
  have "k / 10 ^ 6 * (1 + unit_roundoff) ^ j \<le> k / 10 ^ 6 * (1 + 2 * t)" using upper k0 by (rule mult_left_mono)
  with d(2) have "dval x \<le> k / 10 ^ 6 * (1 + 2 * t)" by linarith
  then have "dval x * 10 ^ 6 \<le> k + 2 * (k * t)" by (simp add: field_simps)
  with kt have 2: "dval x * 10 ^ 6 + 1 / 2 < of_nat K + 1" by (simp add: k_def)
  from assms(2) 1 2 show ?thesis by (rule toFixed6_eq)
qed

lemma foldl_fadd_close:
  assumes "close_to j (dval acc) (of_nat A / 10 ^ 6)" and "0 < snd acc" and "1 \<le> j"
  shows "close_to (j + length ns)
           (dval (foldl fadd acc (map (\<lambda>n. nearest_double n (10 ^ 6)) ns)))
           (of_nat (A + sum_list ns) / 10 ^ 6)
         \<and> 0 < snd (foldl fadd acc (map (\<lambda>n. nearest_double n (10 ^ 6)) ns))"
  using assms
proof (induction ns arbitrary: acc A j)
  case Nil
  then show ?case by simp
next
  case (Cons n ns)
  let ?c = "nearest_double n (10 ^ 6)"
  have "close_to 1 (dval ?c) (of_nat n / of_nat (10 ^ 6))" by (rule nearest_double_close) simp
  then have "close_to 1 (dval ?c) (of_nat n / 10 ^ 6)" by simp
  then have c: "close_to j (dval ?c) (of_nat n / 10 ^ 6)"
    using Cons.prems(3) by (rule close_to_mono) simp
  have "close_to (Suc j) (dval (fadd acc ?c)) (of_nat A / 10 ^ 6 + of_nat n / 10 ^ 6)"
    using Cons.prems(1) c by (rule fadd_close) (simp_all add: Cons.prems(2) nearest_double_pos)
  then have step: "close_to (Suc j) (dval (fadd acc ?c)) (of_nat (A + n) / 10 ^ 6)"
    by (simp add: add_divide_distrib)
  from Cons.IH [OF step fadd_pos] show ?case by (simp add: add.assoc)
qed

lemma total_cost_exact:
  assumes "4 * (length ns + 1) * sum_list ns < 2 ^ 53"
  shows "parseFloat6 (toFixed6 (foldl fadd (0, 1) (map (\<lambda>n. nearest_double n (10 ^ 6)) ns)))
         = nearest_double (sum_list ns) (10 ^ 6)"
proof -
  have "close_to 1 (dval (0, 1)) (of_nat 0 / 10 ^ 6)" by (simp add: close_to_def dval_def)
  from foldl_fadd_close [OF this, of ns]
  have "close_to (1 + length ns)
           (dval (foldl fadd (0, 1) (map (\<lambda>n. nearest_double n (10 ^ 6)) ns)))
           (of_nat (sum_list ns) / 10 ^ 6)"
    and "0 < snd (foldl fadd (0, 1) (map (\<lambda>n. nearest_double n (10 ^ 6)) ns))"
    by simp_all
  moreover have "4 * (1 + length ns) * sum_list ns < 2 ^ 53"
    using assms by (simp add: add.commute)
  ultimately have "toFixed6 (foldl fadd (0, 1) (map (\<lambda>n. nearest_double n (10 ^ 6)) ns)) = sum_list ns"
    by (rule close_to_toFixed6)
  then show ?thesis by (simp add: parseFloat6_def)
qed

lemma round_div_bounds:
  fixes N :: nat
  assumes "N mod 100 \<noteq> 50"
  shows "100 * ((N + 50) div 100) \<le> N + 49 \<and> N \<le> 100 * ((N + 50) div 100) + 49"
proof -
  define r where "r = N mod 100"
  define d where "d = N div 100"
  have N: "N = 100 * d + r" and r: "r < 100" "r \<noteq> 50" using assms by (simp_all add: r_def d_def)
  show ?thesis
  proof (cases "r < 50")
    case True
    then have "(N + 50) div 100 = d" unfolding N by simp
    with True N show ?thesis by simp
  next
    case False
    with r have "50 < r" by simp
    then have "(100 * d + r + 50) div 100 = Suc d" using r(1)
      by (intro div_nat_eqI) simp_all
    then have "(N + 50) div 100 = Suc d" unfolding N .
    with False N r show ?thesis by simp
  qed
qed


lemma call_cost_exact:
  assumes "8 * (a * p + b * c) < 2 ^ 53" and "(a * p + b * c) mod 100 \<noteq> 50"
  shows "parseFloat6 (toFixed6
           (fadd (fmul (fdiv (p, 1) (10 ^ 6, 1)) (cents a)) (fmul (fdiv (c, 1) (10 ^ 6, 1)) (cents b))))
         = nearest_double ((a * p + b * c + 50) div 100) (10 ^ 6)"
proof -
  define N where "N = a * p + b * c"
  define q where "q = (N + 50) div 100"
  let ?i = "nearest_double a 100" and ?o = "nearest_double b 100"
  let ?x1 = "fdiv (p, 1) (10 ^ 6, 1)" and ?x2 = "fdiv (c, 1) (10 ^ 6, 1)"
  let ?s = "fadd (fmul ?x1 ?i) (fmul ?x2 ?o)"
  have i: "close_to 1 (dval ?i) (of_nat a / 100)"
    using nearest_double_close [of 100 a] by simp
  have o: "close_to 1 (dval ?o) (of_nat b / 100)"
    using nearest_double_close [of 100 b] by simp
  have x1: "close_to 1 (dval ?x1) (of_nat p / 10 ^ 6)"
    using nearest_double_close [of "10 ^ 6" p] by (simp add: fdiv_def)
  have x2: "close_to 1 (dval ?x2) (of_nat c / 10 ^ 6)"
    using nearest_double_close [of "10 ^ 6" c] by (simp add: fdiv_def)
  have y1: "close_to (Suc (1 + 1)) (dval (fmul ?x1 ?i)) (of_nat p / 10 ^ 6 * (of_nat a / 100))"
    using x1 i by (rule fmul_close) (simp_all add: fdiv_pos nearest_double_pos)
  have y2: "close_to (Suc (1 + 1)) (dval (fmul ?x2 ?o)) (of_nat c / 10 ^ 6 * (of_nat b / 100))"
    using x2 o by (rule fmul_close) (simp_all add: fdiv_pos nearest_double_pos)
  have "close_to (Suc (Suc (1 + 1))) (dval ?s)
      (of_nat p / 10 ^ 6 * (of_nat a / 100) + of_nat c / 10 ^ 6 * (of_nat b / 100))"
    using y1 y2 by (rule fadd_close) (simp_all add: fmul_pos)
  moreover have "(of_nat p / 10 ^ 6 * (of_nat a / 100) + of_nat c / 10 ^ 6 * (of_nat b / 100) :: rat)
      = of_nat N / 10 ^ 8"
    by (simp add: N_def)
  moreover have "Suc (Suc (1 + 1)) = 4" by simp
  ultimately have s: "close_to 4 (dval ?s) (of_nat N / 10 ^ 8)"
    by (simp only:)
  define k :: rat where "k = of_nat N"
  define t :: rat where "t = k * unit_roundoff"
  have k0: "0 \<le> k" by (simp add: k_def)
  have "(of_nat (8 * N) :: rat) < of_nat (2 ^ 53)" using assms(1) by (simp only: of_nat_less_iff N_def)
  then have "8 * k < (2 ^ 53 :: rat)" by (simp add: k_def)
  then have t8: "8 * t < 1" by (simp add: t_def unit_roundoff_def)
  have t0: "0 \<le> t" using k0 by (simp add: t_def unit_roundoff_def)
  have lower: "1 - 4 * unit_roundoff \<le> (1 - unit_roundoff) ^ 4"
    using pow_lower [of unit_roundoff 4] by (simp add: unit_roundoff_def)
  have upper: "(1 + unit_roundoff) ^ 4 \<le> 1 + 8 * unit_roundoff"
    using pow_upper [of unit_roundoff 4] by (simp add: unit_roundoff_def)
  from s have d: "k / 10 ^ 8 * (1 - unit_roundoff) ^ 4 \<le> dval ?s" "dval ?s \<le> k / 10 ^ 8 * (1 + unit_roundoff) ^ 4"
    by (simp_all add: close_to_def k_def)
  have k8: "0 \<le> k / 10 ^ 8" using k0 by simp
  have "k / 10 ^ 8 * (1 - 4 * unit_roundoff) \<le> k / 10 ^ 8 * (1 - unit_roundoff) ^ 4" using lower k8 by (rule mult_left_mono)
  with d(1) have "k / 10 ^ 8 * (1 - 4 * unit_roundoff) \<le> dval ?s" by linarith
  then have lo: "k - 4 * t \<le> dval ?s * 10 ^ 6 * 100" by (simp add: field_simps t_def)
  have "k / 10 ^ 8 * (1 + unit_roundoff) ^ 4 \<le> k / 10 ^ 8 * (1 + 8 * unit_roundoff)" using upper k8 by (rule mult_left_mono)
  with d(2) have "dval ?s \<le> k / 10 ^ 8 * (1 + 8 * unit_roundoff)" by linarith
  then have hi: "dval ?s * 10 ^ 6 * 100 \<le> k + 8 * t" by (simp add: field_simps t_def)
  have "N mod 100 \<noteq> 50" unfolding N_def by (rule assms(2))
  then have "100 * q \<le> N + 49 \<and> N \<le> 100 * q + 49"
    unfolding q_def by (rule round_div_bounds)
  then have "(of_nat (100 * q) :: rat) \<le> of_nat (N + 49)" and "(of_nat N :: rat) \<le> of_nat (100 * q + 49)"
    by (simp_all only: of_nat_le_iff)
  then have qk: "100 * of_nat q \<le> k + 49" "k \<le> 100 * of_nat q + 49" by (simp_all add: k_def)
  have 1: "of_nat q \<le> dval ?s * 10 ^ 6 + 1 / 2" using lo qk(1) t8 t0 by simp
  have 2: "dval ?s * 10 ^ 6 + 1 / 2 < of_nat q + 1" using hi qk(2) t8 t0 by simp
  have "toFixed6 ?s = q" using fadd_pos 1 2 by (rule toFixed6_eq)
  then show ?thesis by (simp add: parseFloat6_def cents_def q_def N_def)
qed


lemma nearest_double_error:
  assumes "0 < d"
  shows "\<bar>dval (nearest_double m d) - of_nat m / of_nat d\<bar> \<le> of_nat m / of_nat d / 2 ^ 53"
proof -
  define x :: rat where "x = of_nat m / of_nat d"
  from nearest_double_close [OF assms, of m]
  have lower: "x * (1 - unit_roundoff) \<le> dval (nearest_double m d)"
    and upper: "dval (nearest_double m d) \<le> x * (1 + unit_roundoff)"
    by (simp_all add: close_to_def x_def)
  have l: "x * (1 - unit_roundoff) = x - x * unit_roundoff"
    by (simp add: algebra_simps)
  have r: "x * (1 + unit_roundoff) = x + x * unit_roundoff"
    by (simp add: algebra_simps)
  have e: "x * unit_roundoff = x / 2 ^ 53"
    by (simp add: unit_roundoff_def)
  from lower have "x - x / 2 ^ 53 \<le> dval (nearest_double m d)" by (simp only: l e)
  moreover from upper have "dval (nearest_double m d) \<le> x + x / 2 ^ 53" by (simp only: r e)
  ultimately have "\<bar>dval (nearest_double m d) - x\<bar> \<le> x / 2 ^ 53" by linarith
  then show ?thesis by (simp only: x_def)
qed

lemma modelPricing_eq: "modelPricing = \<lparr>input_price = cents 15, output_price = cents 60\<rparr>"
  by (simp add: modelPricing_def PRICING_def MODEL_NAME_def)

text \<open>
  Claim C6, as far as the code goes. The prices are \<open>a\<close> and \<open>b\<close> hundredths of a dollar
  per million tokens, so that the exact cost of a call with \<open>p\<close> prompt and \<open>c\<close> completion
  tokens is \<open>(a p + b c) / 10\<^sup>8\<close> dollars.
  \<^item> When the exact cost is not half-way between two numbers of six decimals (\<open>a p + b c\<close>
    leaves a remainder other than 50 modulo 100), the numbers of tokens are below \<open>2\<^sup>5\<^sup>3\<close>
    and \<open>8 (a p + b c) < 2\<^sup>5\<^sup>3\<close>, the call is recorded with its numbers of tokens and, as
    its cost, the double nearest to the exact cost rounded to six decimals.
  \<^item> When the recorded costs are the doubles nearest to \<open>n\<^sub>1, \<dots>, n\<^sub>k\<close> millionths and
    \<open>4 (k + 1) (n\<^sub>1 + \<dots> + n\<^sub>k) < 2\<^sup>5\<^sup>3\<close>, \<open>totalCost\<close> is the double nearest to their sum.
  \<^item> The double nearest to a fraction differs from it by at most the fraction over \<open>2\<^sup>5\<^sup>3\<close>.
\<close>

theorem cost_ledger_rounding:
  "(prompt_tokens us < 2 ^ 53 \<and> completion_tokens us < 2 ^ 53
      \<and> 8 * (a * prompt_tokens us + b * completion_tokens us) < 2 ^ 53
      \<and> (a * prompt_tokens us + b * completion_tokens us) mod 100 \<noteq> 50 \<longrightarrow>
    callCosts (trackCallCost \<lparr>input_price = cents a, output_price = cents b\<rparr> (Some us) n st)
      = callCosts st @
          [\<lparr>callNumber = n, promptTokens = prompt_tokens us,
            completionTokens = completion_tokens us,
            cost_call =
              nearest_double ((a * prompt_tokens us + b * completion_tokens us + 50) div 100)
                (10 ^ 6)\<rparr>])
   \<and> (map cost_call (callCosts st) = map (\<lambda>k. nearest_double k (10 ^ 6)) ns
      \<and> 4 * (length ns + 1) * sum_list ns < 2 ^ 53 \<longrightarrow>
    totalCost (cost (result_of st)) = nearest_double (sum_list ns) (10 ^ 6))
   \<and> (0 < d \<longrightarrow>
    \<bar>dval (nearest_double m d) - of_nat m / of_nat d\<bar> \<le> of_nat m / of_nat d / 2 ^ 53)"
proof (intro conjI impI)
  assume "prompt_tokens us < 2 ^ 53 \<and> completion_tokens us < 2 ^ 53
      \<and> 8 * (a * prompt_tokens us + b * completion_tokens us) < 2 ^ 53
      \<and> (a * prompt_tokens us + b * completion_tokens us) mod 100 \<noteq> 50"
  then have "parseFloat6 (toFixed6
           (fadd (fmul (fdiv (prompt_tokens us, 1) (10 ^ 6, 1)) (cents a))
                 (fmul (fdiv (completion_tokens us, 1) (10 ^ 6, 1)) (cents b))))
         = nearest_double ((a * prompt_tokens us + b * completion_tokens us + 50) div 100) (10 ^ 6)"
    by (intro call_cost_exact) simp_all
  then show "callCosts (trackCallCost \<lparr>input_price = cents a, output_price = cents b\<rparr> (Some us) n st)
      = callCosts st @
          [\<lparr>callNumber = n, promptTokens = prompt_tokens us,
            completionTokens = completion_tokens us,
            cost_call =
              nearest_double ((a * prompt_tokens us + b * completion_tokens us + 50) div 100)
                (10 ^ 6)\<rparr>]"
    by (simp only: trackCallCost_def Let_def option.case) simp
next
  assume "map cost_call (callCosts st) = map (\<lambda>k. nearest_double k (10 ^ 6)) ns
      \<and> 4 * (length ns + 1) * sum_list ns < 2 ^ 53"
  then have costs: "map cost_call (callCosts st) = map (\<lambda>k. nearest_double k (10 ^ 6)) ns"
    and small: "4 * (length ns + 1) * sum_list ns < 2 ^ 53" by simp_all
  have "totalCost (cost (result_of st))
      = parseFloat6 (toFixed6 (foldl fadd (0, 1) (map cost_call (callCosts st))))"
    by (simp add: result_of_def)
  also have "\<dots> = parseFloat6 (toFixed6 (foldl fadd (0, 1) (map (\<lambda>k. nearest_double k (10 ^ 6)) ns)))"
    by (simp only: costs)
  also have "\<dots> = nearest_double (sum_list ns) (10 ^ 6)"
    using small by (rule total_cost_exact)
  finally show "totalCost (cost (result_of st)) = nearest_double (sum_list ns) (10 ^ 6)" .
next
  assume "0 < d"
  then show "\<bar>dval (nearest_double m d) - of_nat m / of_nat d\<bar> \<le> of_nat m / of_nat d / 2 ^ 53"
    by (rule nearest_double_error)
qed

text \<open>
  Claim C6 as stated fails at a tie of the sixth decimal. Two prompt tokens and twelve
  completion tokens at the prices of \<^verbatim>\<open>gpt-4o-mini\<close> cost \<open>0.0000075\<close> dollars exactly, which
  rounds to \<open>0.000008\<close>; the sum the code computes in doubles lies below the tie, and the
  recorded cost is the double nearest to \<open>0.000007\<close>.
\<close>

theorem cost_ledger_tie:
  "callCosts (trackCallCost modelPricing (Some \<lparr>prompt_tokens = 2, completion_tokens = 12\<rparr>) 1
      initial_state)
     = [\<lparr>callNumber = 1, promptTokens = 2, completionTokens = 12,
         cost_call = nearest_double 7 (10 ^ 6)\<rparr>]
   \<and> dval (nearest_double 7 (10 ^ 6)) = 8264141345021879 / 2 ^ 70
   \<and> dval (nearest_double 8 (10 ^ 6)) = 4722366482869645 / 2 ^ 69
   \<and> (2 * (15 / 100) / 10 ^ 6 + 12 * (60 / 100) / 10 ^ 6 :: rat) = 75 / 10 ^ 7
   \<and> \<lfloor>(2 * (15 / 100) / 10 ^ 6 + 12 * (60 / 100) / 10 ^ 6 :: rat) * 10 ^ 6 + 1 / 2\<rfloor> = 8"
proof -
  have recorded: "parseFloat6 (toFixed6
      (fadd (fmul (fdiv (2, 1) (10 ^ 6, 1)) (cents 15)) (fmul (fdiv (12, 1) (10 ^ 6, 1)) (cents 60))))
      = nearest_double 7 (10 ^ 6)"
    by (simp add: cents_def parseFloat6_def toFixed6_def fadd_def fmul_def fdiv_def
        nearest_double_def bits.simps round_half_even_def Let_def)
  have ledger: "callCosts (trackCallCost modelPricing
        (Some \<lparr>prompt_tokens = 2, completion_tokens = 12\<rparr>) 1 initial_state)
     = [\<lparr>callNumber = 1, promptTokens = 2, completionTokens = 12,
         cost_call = nearest_double 7 (10 ^ 6)\<rparr>]"
    by (simp only: trackCallCost_def modelPricing_eq Let_def option.case usage.simps
        pricing.simps recorded) (simp add: initial_state_def)
  have seven: "dval (nearest_double 7 (10 ^ 6)) = 8264141345021879 / 2 ^ 70"
    by (simp add: nearest_double_def bits.simps round_half_even_def dval_def Let_def)
  have eight: "dval (nearest_double 8 (10 ^ 6)) = 4722366482869645 / 2 ^ 69"
    by (simp add: nearest_double_def bits.simps round_half_even_def dval_def Let_def)
  have exact: "(2 * (15 / 100) / 10 ^ 6 + 12 * (60 / 100) / 10 ^ 6 :: rat) = 75 / 10 ^ 7"
    by simp
  have "(75 / 10 ^ 7 :: rat) * 10 ^ 6 + 1 / 2 = 8" by simp
  then have rounded: "\<lfloor>(2 * (15 / 100) / 10 ^ 6 + 12 * (60 / 100) / 10 ^ 6 :: rat) * 10 ^ 6 + 1 / 2\<rfloor> = 8"
    by (simp only: exact) simp
  from ledger seven eight exact rounded show ?thesis by blast
qed

theorem cost_ledger_rounding_witness:
  "callCosts two_calls_state
     = [\<lparr>callNumber = 1, promptTokens = 1000, completionTokens = 500,
         cost_call = nearest_double 450 (10 ^ 6)\<rparr>,
        \<lparr>callNumber = 2, promptTokens = 200, completionTokens = 100,
         cost_call = nearest_double 90 (10 ^ 6)\<rparr>]
   \<and> totalCost (cost (result_of two_calls_state)) = nearest_double 540 (10 ^ 6)
   \<and> dval (nearest_double 450 (10 ^ 6)) = 4150517416584649 / 2 ^ 63
   \<and> dval (nearest_double 90 (10 ^ 6)) = 6640827866535439 / 2 ^ 66
   \<and> dval (nearest_double 540 (10 ^ 6)) = 4980620899901579 / 2 ^ 63
   \<and> \<bar>dval (nearest_double 450 (10 ^ 6)) - 45 / 100000\<bar> \<le> 45 / 100000 / 2 ^ 53"
proof -
  let ?first = "\<lparr>prompt_tokens = 1000, completion_tokens = 500\<rparr>"
  let ?second = "\<lparr>prompt_tokens = 200, completion_tokens = 100\<rparr>"
  let ?st1 = "trackCallCost modelPricing (Some ?first) 1 initial_state"
  from cost_ledger_rounding [of "?first" 15 60 1 initial_state]
  have c1: "callCosts ?st1
      = [\<lparr>callNumber = 1, promptTokens = 1000, completionTokens = 500,
          cost_call = nearest_double 450 (10 ^ 6)\<rparr>]"
    by (simp add: modelPricing_eq initial_state_def)
  from cost_ledger_rounding [of "?second" 15 60 2 "?st1"] c1
  have c2: "callCosts two_calls_state
     = [\<lparr>callNumber = 1, promptTokens = 1000, completionTokens = 500,
         cost_call = nearest_double 450 (10 ^ 6)\<rparr>,
        \<lparr>callNumber = 2, promptTokens = 200, completionTokens = 100,
         cost_call = nearest_double 90 (10 ^ 6)\<rparr>]"
    by (simp add: modelPricing_eq two_calls_state_def)
  from cost_ledger_rounding [of _ _ _ _ two_calls_state "[450, 90]"] c2
  have total: "totalCost (cost (result_of two_calls_state)) = nearest_double 540 (10 ^ 6)"
    by simp
  from cost_ledger_rounding [of _ _ _ _ _ _ "10 ^ 6" 450]
  have err: "\<bar>dval (nearest_double 450 (10 ^ 6)) - 45 / 100000\<bar> \<le> 45 / 100000 / 2 ^ 53"
    by simp
  have doubles: "dval (nearest_double 450 (10 ^ 6)) = 4150517416584649 / 2 ^ 63"
    "dval (nearest_double 90 (10 ^ 6)) = 6640827866535439 / 2 ^ 66"
    "dval (nearest_double 540 (10 ^ 6)) = 4980620899901579 / 2 ^ 63"
    by (simp_all add: nearest_double_def bits.simps round_half_even_def dval_def Let_def)
  from c2 total doubles err show ?thesis by blast
qed

end
